theory Spec2Isabelle
  imports Complex_Main "HOL-Library.Product_Lexorder" "HOL-Library.Multiset" "HOL-Library.Log_Nat"
begin

unbundle bit_operations_syntax

section \<open>The tilemap of rmmz-ts: data model\<close>

text \<open>
  The numbers of the program are JavaScript numbers. Tile ids, map coordinates, flags
  and pixel positions are integers here (\<open>int\<close>); the scroll origin and the size of the
  view are fractional (\<open>rat\<close>). Where the program can produce \<open>NaN\<close> (the source
  position of an animated autotile before \<open>animationFrame\<close> is set), the value is an
  \<open>int option\<close> and \<open>None\<close> stands for \<open>NaN\<close>.
\<close>

subsection \<open>JavaScript primitives\<close>

text \<open>The operator \<open>%\<close>: the remainder takes the sign of the dividend.\<close>

definition js_rem :: "int \<Rightarrow> int \<Rightarrow> int" where
  "js_rem a b = sgn a * (\<bar>a\<bar> mod \<bar>b\<bar>)"

text \<open>Reading \<open>xs[i]\<close>: \<open>None\<close> is \<open>undefined\<close>, the value outside the array.\<close>

definition array_get :: "'a list \<Rightarrow> int \<Rightarrow> 'a option" where
  "array_get xs i = (if 0 \<le> i \<and> i < int (length xs) then Some (xs ! nat i) else None)"

text \<open>
  Modelled from the spec: \<open>Number.prototype.mod\<close>, which \<open>_readMapData\<close> calls and
  \<open>prototype.js\<close> (not among the sources) defines. The spec calls it the true
  mathematical modulo, never negative for a positive modulus. For the modulus 0 the
  bounds check of \<open>_readMapData\<close> fails whatever the value is (\<open>x < 0\<close> with \<open>0 \<le> x\<close>).
\<close>

definition number_mod :: "int \<Rightarrow> int \<Rightarrow> int" where
  "number_mod x n = x mod n"

text \<open>
  Integers are exact in JavaScript numbers (IEEE doubles) up to \<open>2^53\<close> in magnitude,
  and the tile ids of a map are far below. A sum or product of integers that goes beyond
  is rounded: \<open>toDouble n\<close> is the number nearest to the integer \<open>n\<close>, with 53
  significant bits and a tie going to the even one; \<open>None\<close> is an infinity, the result
  from \<open>2^1024\<close> on.
\<close>

definition toDouble :: "int \<Rightarrow> int option" where
  "toDouble n =
     (let e = bitlen \<bar>n\<bar> - 53
      in if e \<le> 0 then Some n
         else
           (let q = 2 ^ nat e;
                m = n div q;
                r = n mod q;
                v = (if 2 * r < q \<or> (2 * r = q \<and> even m) then m * q else (m + 1) * q)
            in if \<bar>v\<bar> < 2 ^ 1024 then Some v else None))"

datatype error = TypeError

subsection \<open>Tile type checkers\<close>

definition TILE_ID_B :: int where "TILE_ID_B = 0"
definition TILE_ID_C :: int where "TILE_ID_C = 256"
definition TILE_ID_D :: int where "TILE_ID_D = 512"
definition TILE_ID_E :: int where "TILE_ID_E = 768"
definition TILE_ID_A5 :: int where "TILE_ID_A5 = 1536"
definition TILE_ID_A1 :: int where "TILE_ID_A1 = 2048"
definition TILE_ID_A2 :: int where "TILE_ID_A2 = 2816"
definition TILE_ID_A3 :: int where "TILE_ID_A3 = 4352"
definition TILE_ID_A4 :: int where "TILE_ID_A4 = 5888"
definition TILE_ID_MAX :: int where "TILE_ID_MAX = 8192"

definition isVisibleTile :: "int \<Rightarrow> bool" where
  "isVisibleTile tileId \<longleftrightarrow> tileId > 0 \<and> tileId < TILE_ID_MAX"

definition isAutotile :: "int \<Rightarrow> bool" where
  "isAutotile tileId \<longleftrightarrow> tileId \<ge> TILE_ID_A1"

definition getAutotileKind :: "int \<Rightarrow> int" where
  "getAutotileKind tileId = (tileId - TILE_ID_A1) div 48"

definition getAutotileShape :: "int \<Rightarrow> int" where
  "getAutotileShape tileId = js_rem (tileId - TILE_ID_A1) 48"

text \<open>
  \<open>makeAutotileId\<close>: the product and the two sums of \<open>TILE_ID_A1 + kind * 48 + shape\<close>,
  each rounded as the program rounds it; \<open>None\<close> when one of them is an infinity.
\<close>

definition makeAutotileId :: "int \<Rightarrow> int \<Rightarrow> int option" where
  "makeAutotileId kind shape =
     (case toDouble (kind * 48) of
        None \<Rightarrow> None
      | Some p \<Rightarrow>
          (case toDouble (TILE_ID_A1 + p) of
             None \<Rightarrow> None
           | Some b \<Rightarrow> toDouble (b + shape)))"

definition isSameKindTile :: "int \<Rightarrow> int \<Rightarrow> bool" where
  "isSameKindTile tileID1 tileID2 =
     (if isAutotile tileID1 \<and> isAutotile tileID2
      then getAutotileKind tileID1 = getAutotileKind tileID2
      else tileID1 = tileID2)"

definition isTileA1 :: "int \<Rightarrow> bool" where
  "isTileA1 tileId \<longleftrightarrow> tileId \<ge> TILE_ID_A1 \<and> tileId < TILE_ID_A2"

definition isTileA2 :: "int \<Rightarrow> bool" where
  "isTileA2 tileId \<longleftrightarrow> tileId \<ge> TILE_ID_A2 \<and> tileId < TILE_ID_A3"

definition isTileA3 :: "int \<Rightarrow> bool" where
  "isTileA3 tileId \<longleftrightarrow> tileId \<ge> TILE_ID_A3 \<and> tileId < TILE_ID_A4"

definition isTileA4 :: "int \<Rightarrow> bool" where
  "isTileA4 tileId \<longleftrightarrow> tileId \<ge> TILE_ID_A4 \<and> tileId < TILE_ID_MAX"

definition isTileA5 :: "int \<Rightarrow> bool" where
  "isTileA5 tileId \<longleftrightarrow> tileId \<ge> TILE_ID_A5 \<and> tileId < TILE_ID_A1"

definition isShadowingTile :: "int \<Rightarrow> bool" where
  "isShadowingTile tileId \<longleftrightarrow> isTileA3 tileId \<or> isTileA4 tileId"

subsection \<open>Autotile shape number to coordinates of tileset images\<close>

definition FLOOR_AUTOTILE_TABLE :: "(int \<times> int) list list" where
  "FLOOR_AUTOTILE_TABLE = [
    [(2, 4), (1, 4), (2, 3), (1, 3)],
    [(2, 0), (1, 4), (2, 3), (1, 3)],
    [(2, 4), (3, 0), (2, 3), (1, 3)],
    [(2, 0), (3, 0), (2, 3), (1, 3)],
    [(2, 4), (1, 4), (2, 3), (3, 1)],
    [(2, 0), (1, 4), (2, 3), (3, 1)],
    [(2, 4), (3, 0), (2, 3), (3, 1)],
    [(2, 0), (3, 0), (2, 3), (3, 1)],
    [(2, 4), (1, 4), (2, 1), (1, 3)],
    [(2, 0), (1, 4), (2, 1), (1, 3)],
    [(2, 4), (3, 0), (2, 1), (1, 3)],
    [(2, 0), (3, 0), (2, 1), (1, 3)],
    [(2, 4), (1, 4), (2, 1), (3, 1)],
    [(2, 0), (1, 4), (2, 1), (3, 1)],
    [(2, 4), (3, 0), (2, 1), (3, 1)],
    [(2, 0), (3, 0), (2, 1), (3, 1)],
    [(0, 4), (1, 4), (0, 3), (1, 3)],
    [(0, 4), (3, 0), (0, 3), (1, 3)],
    [(0, 4), (1, 4), (0, 3), (3, 1)],
    [(0, 4), (3, 0), (0, 3), (3, 1)],
    [(2, 2), (1, 2), (2, 3), (1, 3)],
    [(2, 2), (1, 2), (2, 3), (3, 1)],
    [(2, 2), (1, 2), (2, 1), (1, 3)],
    [(2, 2), (1, 2), (2, 1), (3, 1)],
    [(2, 4), (3, 4), (2, 3), (3, 3)],
    [(2, 4), (3, 4), (2, 1), (3, 3)],
    [(2, 0), (3, 4), (2, 3), (3, 3)],
    [(2, 0), (3, 4), (2, 1), (3, 3)],
    [(2, 4), (1, 4), (2, 5), (1, 5)],
    [(2, 0), (1, 4), (2, 5), (1, 5)],
    [(2, 4), (3, 0), (2, 5), (1, 5)],
    [(2, 0), (3, 0), (2, 5), (1, 5)],
    [(0, 4), (3, 4), (0, 3), (3, 3)],
    [(2, 2), (1, 2), (2, 5), (1, 5)],
    [(0, 2), (1, 2), (0, 3), (1, 3)],
    [(0, 2), (1, 2), (0, 3), (3, 1)],
    [(2, 2), (3, 2), (2, 3), (3, 3)],
    [(2, 2), (3, 2), (2, 1), (3, 3)],
    [(2, 4), (3, 4), (2, 5), (3, 5)],
    [(2, 0), (3, 4), (2, 5), (3, 5)],
    [(0, 4), (1, 4), (0, 5), (1, 5)],
    [(0, 4), (3, 0), (0, 5), (1, 5)],
    [(0, 2), (3, 2), (0, 3), (3, 3)],
    [(0, 2), (1, 2), (0, 5), (1, 5)],
    [(0, 4), (3, 4), (0, 5), (3, 5)],
    [(2, 2), (3, 2), (2, 5), (3, 5)],
    [(0, 2), (3, 2), (0, 5), (3, 5)],
    [(0, 0), (1, 0), (0, 1), (1, 1)]
  ]"

definition WALL_AUTOTILE_TABLE :: "(int \<times> int) list list" where
  "WALL_AUTOTILE_TABLE = [
    [(2, 2), (1, 2), (2, 1), (1, 1)],
    [(0, 2), (1, 2), (0, 1), (1, 1)],
    [(2, 0), (1, 0), (2, 1), (1, 1)],
    [(0, 0), (1, 0), (0, 1), (1, 1)],
    [(2, 2), (3, 2), (2, 1), (3, 1)],
    [(0, 2), (3, 2), (0, 1), (3, 1)],
    [(2, 0), (3, 0), (2, 1), (3, 1)],
    [(0, 0), (3, 0), (0, 1), (3, 1)],
    [(2, 2), (1, 2), (2, 3), (1, 3)],
    [(0, 2), (1, 2), (0, 3), (1, 3)],
    [(2, 0), (1, 0), (2, 3), (1, 3)],
    [(0, 0), (1, 0), (0, 3), (1, 3)],
    [(2, 2), (3, 2), (2, 3), (3, 3)],
    [(0, 2), (3, 2), (0, 3), (3, 3)],
    [(2, 0), (3, 0), (2, 3), (3, 3)],
    [(0, 0), (3, 0), (0, 3), (3, 3)]
  ]"

definition WATERFALL_AUTOTILE_TABLE :: "(int \<times> int) list list" where
  "WATERFALL_AUTOTILE_TABLE = [
    [(2, 0), (1, 0), (2, 1), (1, 1)],
    [(0, 0), (1, 0), (0, 1), (1, 1)],
    [(2, 0), (3, 0), (2, 1), (3, 1)],
    [(0, 0), (3, 0), (0, 1), (3, 1)]
  ]"

subsection \<open>The tilemap object\<close>

text \<open>
  A rectangle command, the arguments of \<open>layer.addRect\<close>: the tileset number, the source
  position (\<open>None\<close> is \<open>NaN\<close>), the destination position, width and height.
\<close>

datatype rect = Rect int "int option" "int option" int int int int

text \<open>
  Modelled from the spec: the draw layer (\<open>Tilemap.Layer\<close>, whose class is not among
  the sources), an ordered container of rectangle commands with \<open>clear()\<close> and
  \<open>addRect(...)\<close>. The model keeps every call made on a layer, in order; the contents
  of the layer are the rectangles added since the last \<open>clear()\<close>. The third call the
  tilemap makes on a layer is \<open>setBitmaps(bitmaps)\<close>, which hands over the tileset
  images and leaves the rectangles as they are.
\<close>

datatype layer_call = Clear | AddRect rect | SetBitmaps "bool option list"

record layer =
  layer_x :: int
  layer_y :: int
  layer_z :: int
  calls :: "layer_call list"

fun layer_contents :: "layer_call list \<Rightarrow> rect list" where
  "layer_contents [] = []"
| "layer_contents (Clear # cs) = layer_contents cs"
| "layer_contents (AddRect r # cs) =
     (if Clear \<in> set cs then layer_contents cs else r # layer_contents cs)"
| "layer_contents (SetBitmaps bs # cs) = layer_contents cs"

datatype layer_id = Lower | Upper

text \<open>
  A child of the container: one of the two layers (the same objects as \<open>_lowerLayer\<close>
  and \<open>_upperLayer\<close>), or another drawable with its \<open>z\<close>, \<open>y\<close> and \<open>spriteId\<close>
  (\<open>None\<close> when the object has no \<open>spriteId\<close>).
\<close>

datatype child = LayerChild layer_id | Drawable rat rat "int option"

record tilemap =
  tm_width :: rat
  tm_height :: rat
  mapWidth :: int
  mapHeight :: int
  mapData :: "int list option"
  bitmaps :: "bool option list"
  origin_x :: rat
  origin_y :: rat
  flags :: "int list"
  animationCount :: int
  animationFrame :: "int option"
  horizontalWrap :: bool
  verticalWrap :: bool
  needsBitmapsUpdate :: bool
  needsRepaint :: bool
  lastAnimationFrame :: "int option"
  lastStartX :: "int option"
  lastStartY :: "int option"
  lowerLayer :: layer
  upperLayer :: layer
  children :: "child list"

text \<open>
  \<open>initialize\<close> assigns \<open>_margin\<close>, \<open>_tileWidth\<close> and \<open>_tileHeight\<close> once and no
  function of the class assigns them again: they are constants here.
\<close>

definition margin :: int where "margin = 20"
definition tileWidth :: int where "tileWidth = 48"
definition tileHeight :: int where "tileHeight = 48"

text \<open>
  \<open>initialize\<close>, with \<open>Graphics.width\<close> and \<open>Graphics.height\<close> as parameters;
  \<open>_createLayers\<close> and \<open>refresh\<close> are inlined. The fields the constructor does not assign
  (\<open>animationFrame\<close>, \<open>_lastAnimationFrame\<close>, \<open>_lastStartX\<close>, \<open>_lastStartY\<close>) are
  \<open>undefined\<close>; so is \<open>_needsBitmapsUpdate\<close>, which is only tested for truth and is
  \<open>False\<close> here. An entry of \<open>bitmaps\<close> is \<open>None\<close> for \<open>null\<close>, and otherwise what
  the bitmap's \<open>isReady()\<close> returns at present.
\<close>

definition initialize :: "rat \<Rightarrow> rat \<Rightarrow> tilemap" where
  "initialize graphicsWidth graphicsHeight =
     \<lparr> tm_width = graphicsWidth, tm_height = graphicsHeight,
       mapWidth = 0, mapHeight = 0, mapData = None, bitmaps = [],
       origin_x = 0, origin_y = 0, flags = [],
       animationCount = 0, animationFrame = None,
       horizontalWrap = False, verticalWrap = False,
       needsBitmapsUpdate = False, needsRepaint = True,
       lastAnimationFrame = None, lastStartX = None, lastStartY = None,
       lowerLayer = \<lparr> layer_x = 0, layer_y = 0, layer_z = 0, calls = [] \<rparr>,
       upperLayer = \<lparr> layer_x = 0, layer_y = 0, layer_z = 4, calls = [] \<rparr>,
       children = [LayerChild Lower, LayerChild Upper] \<rparr>"

text \<open>\<open>setData\<close>; a \<open>data\<close> of \<open>None\<close> is \<open>null\<close>.\<close>

definition setData :: "int \<Rightarrow> int \<Rightarrow> int list option \<Rightarrow> tilemap \<Rightarrow> tilemap" where
  "setData width height data tm =
     tm\<lparr> mapWidth := width, mapHeight := height, mapData := data \<rparr>"

text \<open>\<open>update\<close>, without the updates of the children (objects outside the class).\<close>

definition update :: "tilemap \<Rightarrow> tilemap" where
  "update tm =
     (let c = animationCount tm + 1
      in tm\<lparr> animationCount := c, animationFrame := Some (c div 30) \<rparr>)"

definition refresh :: "tilemap \<Rightarrow> tilemap" where
  "refresh tm = tm\<lparr> needsRepaint := True \<rparr>"

definition isReady :: "tilemap \<Rightarrow> bool" where
  "isReady tm = list_all (\<lambda>bitmap. case bitmap of None \<Rightarrow> True | Some ready \<Rightarrow> ready) (bitmaps tm)"

text \<open>
  \<open>_updateBitmaps\<close>, which \<open>setBitmaps\<close> calls and which is the listener of the bitmaps
  that were still loading.
\<close>

definition updateBitmaps :: "tilemap \<Rightarrow> tilemap" where
  "updateBitmaps tm =
     (if needsBitmapsUpdate tm \<and> isReady tm then
        tm\<lparr> needsBitmapsUpdate := False,
            needsRepaint := True,
            lowerLayer :=
              (lowerLayer tm)\<lparr> calls := calls (lowerLayer tm) @ [SetBitmaps (bitmaps tm)] \<rparr> \<rparr>
      else tm)"

text \<open>
  \<open>setBitmaps\<close>. Its loop calls \<open>bitmap.isReady()\<close> on every entry, which throws on
  \<open>null\<close>; the listeners it adds are kept by the bitmaps, not by the tilemap.
\<close>

definition setBitmaps :: "bool option list \<Rightarrow> tilemap \<Rightarrow> error + tilemap" where
  "setBitmaps bs tm =
     (if None \<in> set bs then Inl TypeError
      else Inr (updateBitmaps (tm\<lparr> bitmaps := bs, needsBitmapsUpdate := True \<rparr>)))"

text \<open>
  \<open>_readMapData\<close>. An element the array does not have reads as \<open>undefined\<close>, which
  \<open>|| 0\<close> turns into 0.
\<close>

definition readMapData :: "tilemap \<Rightarrow> int \<Rightarrow> int \<Rightarrow> int \<Rightarrow> int" where
  "readMapData tm x y z =
     (case mapData tm of
        None \<Rightarrow> 0
      | Some d \<Rightarrow>
          (let width = mapWidth tm;
               height = mapHeight tm;
               x1 = (if horizontalWrap tm then number_mod x width else x);
               y1 = (if verticalWrap tm then number_mod y height else y)
           in if x1 \<ge> 0 \<and> x1 < width \<and> y1 \<ge> 0 \<and> y1 < height
              then (case array_get d ((z * height + y1) * width + x1) of
                      None \<Rightarrow> 0
                    | Some v \<Rightarrow> v)
              else 0))"

subsection \<open>Flags\<close>

text \<open>
  \<open>this.flags[tileId] & mask\<close>: a missing flag is \<open>undefined\<close>, and \<open>undefined & mask\<close>
  is 0. The results are used as truth values only.
\<close>

definition isHigherTile :: "tilemap \<Rightarrow> int \<Rightarrow> bool" where
  "isHigherTile tm tileId =
     (case array_get (flags tm) tileId of
        None \<Rightarrow> False
      | Some f \<Rightarrow> (f AND 0x10) \<noteq> 0)"

definition isTableTile :: "tilemap \<Rightarrow> int \<Rightarrow> bool" where
  "isTableTile tm tileId =
     (isTileA2 tileId \<and>
      (case array_get (flags tm) tileId of
         None \<Rightarrow> False
       | Some f \<Rightarrow> (f AND 0x80) \<noteq> 0))"

definition isOverpassPosition :: "tilemap \<Rightarrow> int \<Rightarrow> int \<Rightarrow> bool" where
  "isOverpassPosition tm mx my = False"

section \<open>Expanding one spot\<close>

text \<open>
  The functions below read the tilemap and have one effect: calls of \<open>addRect\<close> on the
  layer they are given. Each returns the list of these calls in program order (the
  layer and the rectangle), or the exception it throws; \<open>_addAllSpots\<close> applies the
  calls to the layers.
\<close>

type_synonym emitted = "(layer_id \<times> rect) list"

text \<open>One statement after another: the first exception ends the sequence.\<close>

fun thenE :: "error + 'a list \<Rightarrow> error + 'a list \<Rightarrow> error + 'a list" where
  "thenE (Inl e) r = Inl e"
| "thenE (Inr a) (Inl e) = Inl e"
| "thenE (Inr a) (Inr b) = Inr (a @ b)"

definition addNormalTile :: "layer_id \<Rightarrow> int \<Rightarrow> int \<Rightarrow> int \<Rightarrow> emitted" where
  "addNormalTile layer tileId dx dy =
     (let setNumber = (if isTileA5 tileId then 4 else 5 + tileId div 256);
          w = tileWidth;
          h = tileHeight;
          sx = (js_rem (tileId div 128) 2 * 8 + js_rem tileId 8) * w;
          sy = js_rem (js_rem tileId 256 div 8) 16 * h
      in [(layer, Rect setNumber (Some sx) (Some sy) dx dy w h)])"

text \<open>
  \<open>[0, 1, 2, 1][this.animationFrame % 4]\<close>: \<open>undefined\<close> (here \<open>None\<close>) when
  \<open>animationFrame\<close> is \<open>undefined\<close> or negative; the products and sums made of it are
  then \<open>NaN\<close>.
\<close>

definition waterSurfaceIndex :: "int option \<Rightarrow> int option" where
  "waterSurfaceIndex frame =
     (case frame of
        None \<Rightarrow> None
      | Some f \<Rightarrow> array_get [0, 1, 2, 1] (js_rem f 4))"

text \<open>
  The first half of \<open>_addAutotile\<close>, up to the table lookup: \<open>setNumber\<close>, \<open>bx\<close>,
  \<open>by\<close>, \<open>autotileTable\<close> and \<open>isTable\<close>.
\<close>

definition autotileSource ::
  "tilemap \<Rightarrow> int \<Rightarrow> int \<times> int option \<times> int option \<times> (int \<times> int) list list \<times> bool" where
  "autotileSource tm tileId =
     (let kind = getAutotileKind tileId;
          tx = js_rem kind 8;
          ty = kind div 8
      in if isTileA1 tileId then
           (let wsi = waterSurfaceIndex (animationFrame tm)
            in if kind = 0 then
                 (0, map_option (\<lambda>w. w * 2) wsi, Some 0, FLOOR_AUTOTILE_TABLE, False)
               else if kind = 1 then
                 (0, map_option (\<lambda>w. w * 2) wsi, Some 3, FLOOR_AUTOTILE_TABLE, False)
               else if kind = 2 then
                 (0, Some 6, Some 0, FLOOR_AUTOTILE_TABLE, False)
               else if kind = 3 then
                 (0, Some 6, Some 3, FLOOR_AUTOTILE_TABLE, False)
               else
                 (let bx = tx div 4 * 8;
                      by1 = ty * 6 + js_rem (tx div 2) 2 * 3
                  in if js_rem kind 2 = 0 then
                       (0, map_option (\<lambda>w. bx + w * 2) wsi, Some by1,
                        FLOOR_AUTOTILE_TABLE, False)
                     else
                       (0, Some (bx + 6),
                        map_option (\<lambda>f. by1 + js_rem f 3) (animationFrame tm),
                        WATERFALL_AUTOTILE_TABLE, False)))
         else if isTileA2 tileId then
           (1, Some (tx * 2), Some ((ty - 2) * 3), FLOOR_AUTOTILE_TABLE, isTableTile tm tileId)
         else if isTileA3 tileId then
           (2, Some (tx * 2), Some ((ty - 6) * 2), WALL_AUTOTILE_TABLE, False)
         else if isTileA4 tileId then
           (3, Some (tx * 2),
            Some \<lfloor>rat_of_int (ty - 10) * (5 / 2) + (if js_rem ty 2 = 1 then 1 / 2 else 0)\<rfloor>,
            (if js_rem ty 2 = 1 then WALL_AUTOTILE_TABLE else FLOOR_AUTOTILE_TABLE), False)
         else (0, Some 0, Some 0, FLOOR_AUTOTILE_TABLE, False))"

text \<open>
  The body of the loop of \<open>_addAutotile\<close> for the quadrant \<open>i\<close> with the table's pair
  \<open>q\<close>. The tile is 48 pixels wide and high, so the halves and quarters are exact.
\<close>

definition autotileQuadrant ::
  "layer_id \<Rightarrow> int \<Rightarrow> int option \<Rightarrow> int option \<Rightarrow> bool \<Rightarrow> int \<Rightarrow> int \<Rightarrow> int \<Rightarrow> int \<times> int \<Rightarrow> emitted" where
  "autotileQuadrant layer setNumber bx by1 isTable dx dy i q =
     (let qsx = fst q;
          qsy = snd q;
          w1 = tileWidth div 2;
          h1 = tileHeight div 2;
          sx1 = map_option (\<lambda>b. (b * 2 + qsx) * w1) bx;
          sy1 = map_option (\<lambda>b. (b * 2 + qsy) * h1) by1;
          dx1 = dx + js_rem i 2 * w1;
          dy1 = dy + i div 2 * h1
      in if isTable \<and> (qsy = 1 \<or> qsy = 5) then
           (let qsx2 = (if qsy = 1 then js_rem (4 - qsx) 4 else qsx);
                qsy2 = 3;
                sx2 = map_option (\<lambda>b. (b * 2 + qsx2) * w1) bx;
                sy2 = map_option (\<lambda>b. (b * 2 + qsy2) * h1) by1
            in [(layer, Rect setNumber sx2 sy2 dx1 dy1 w1 h1),
                (layer, Rect setNumber sx1 sy1 dx1 (dy1 + h1 div 2) w1 (h1 div 2))])
         else [(layer, Rect setNumber sx1 sy1 dx1 dy1 w1 h1)])"

text \<open>
  A loop over the quadrants \<open>is\<close> of a table entry: \<open>table[off + i]\<close> is read first, and
  reading a component of \<open>undefined\<close> throws a \<open>TypeError\<close>.
\<close>

fun forQuadrants ::
  "int \<Rightarrow> (int \<Rightarrow> int \<times> int \<Rightarrow> emitted) \<Rightarrow> (int \<times> int) list \<Rightarrow> int list \<Rightarrow> error + emitted" where
  "forQuadrants off body table [] = Inr []"
| "forQuadrants off body table (i # rest) =
     (case array_get table (off + i) of
        None \<Rightarrow> Inl TypeError
      | Some q \<Rightarrow> thenE (Inr (body i q)) (forQuadrants off body table rest))"

text \<open>
  \<open>_addAutotile\<close>. \<open>autotileTable[shape]\<close> is \<open>undefined\<close> when the shape is not an
  index of the table, and the first \<open>table[i][0]\<close> of the loop then throws.
\<close>

definition addAutotile :: "tilemap \<Rightarrow> layer_id \<Rightarrow> int \<Rightarrow> int \<Rightarrow> int \<Rightarrow> error + emitted" where
  "addAutotile tm layer tileId dx dy =
     (case autotileSource tm tileId of
        (setNumber, bx, by1, autotileTable, isTable) \<Rightarrow>
          (case array_get autotileTable (getAutotileShape tileId) of
             None \<Rightarrow> Inl TypeError
           | Some table \<Rightarrow>
               forQuadrants 0 (autotileQuadrant layer setNumber bx by1 isTable dx dy)
                 table [0..3]))"

definition tableEdgeQuadrant ::
  "layer_id \<Rightarrow> int \<Rightarrow> int \<Rightarrow> int \<Rightarrow> int \<Rightarrow> int \<Rightarrow> int \<times> int \<Rightarrow> emitted" where
  "tableEdgeQuadrant layer bx by1 dx dy i q =
     (let qsx = fst q;
          qsy = snd q;
          w1 = tileWidth div 2;
          h1 = tileHeight div 2;
          sx1 = (bx * 2 + qsx) * w1;
          sy1 = (by1 * 2 + qsy) * h1 + h1 div 2;
          dx1 = dx + js_rem i 2 * w1;
          dy1 = dy + i div 2 * h1
      in [(layer, Rect 1 (Some sx1) (Some sy1) dx1 dy1 w1 (h1 div 2))])"

definition addTableEdge :: "tilemap \<Rightarrow> layer_id \<Rightarrow> int \<Rightarrow> int \<Rightarrow> int \<Rightarrow> error + emitted" where
  "addTableEdge tm layer tileId dx dy =
     (if isTileA2 tileId then
        (let kind = getAutotileKind tileId;
             shape = getAutotileShape tileId;
             tx = js_rem kind 8;
             ty = kind div 8;
             bx = tx * 2;
             by1 = (ty - 2) * 3
         in case array_get FLOOR_AUTOTILE_TABLE shape of
              None \<Rightarrow> Inl TypeError
            | Some table \<Rightarrow> forQuadrants 2 (tableEdgeQuadrant layer bx by1 dx dy) table [0..1])
      else Inr [])"

definition addShadow :: "layer_id \<Rightarrow> int \<Rightarrow> int \<Rightarrow> int \<Rightarrow> emitted" where
  "addShadow layer shadowBits dx dy =
     (if (shadowBits AND 0x0f) \<noteq> 0 then
        (let w1 = tileWidth div 2;
             h1 = tileHeight div 2
         in concat (map (\<lambda>i.
              if (shadowBits AND push_bit (nat i) 1) \<noteq> 0
              then [(layer, Rect (- 1) (Some 0) (Some 0)
                      (dx + js_rem i 2 * w1) (dy + i div 2 * h1) w1 h1)]
              else []) [0..3]))
      else [])"

definition addTile :: "tilemap \<Rightarrow> layer_id \<Rightarrow> int \<Rightarrow> int \<Rightarrow> int \<Rightarrow> error + emitted" where
  "addTile tm layer tileId dx dy =
     (if isVisibleTile tileId then
        (if isAutotile tileId then addAutotile tm layer tileId dx dy
         else Inr (addNormalTile layer tileId dx dy))
      else Inr [])"

definition addSpotTile :: "tilemap \<Rightarrow> int \<Rightarrow> int \<Rightarrow> int \<Rightarrow> error + emitted" where
  "addSpotTile tm tileId dx dy =
     (if isHigherTile tm tileId then addTile tm Upper tileId dx dy
      else addTile tm Lower tileId dx dy)"

definition addSpot :: "tilemap \<Rightarrow> int \<Rightarrow> int \<Rightarrow> int \<Rightarrow> int \<Rightarrow> error + emitted" where
  "addSpot tm startX startY x y =
     (let mx = startX + x;
          my = startY + y;
          dx = x * tileWidth;
          dy = y * tileHeight;
          tileId0 = readMapData tm mx my 0;
          tileId1 = readMapData tm mx my 1;
          tileId2 = readMapData tm mx my 2;
          tileId3 = readMapData tm mx my 3;
          shadowBits = readMapData tm mx my 4;
          upperTileId1 = readMapData tm mx (my - 1) 1
      in thenE (addSpotTile tm tileId0 dx dy)
        (thenE (addSpotTile tm tileId1 dx dy)
        (thenE (Inr (addShadow Lower shadowBits dx dy))
        (thenE
          (if isTableTile tm upperTileId1 \<and> \<not> isTableTile tm tileId1 then
             (if \<not> isShadowingTile tileId0
              then addTableEdge tm Lower upperTileId1 dx dy
              else Inr [])
           else Inr [])
          (if isOverpassPosition tm mx my then
             thenE (addTile tm Upper tileId2 dx dy) (addTile tm Upper tileId3 dx dy)
           else
             thenE (addSpotTile tm tileId2 dx dy) (addSpotTile tm tileId3 dx dy))))))"

section \<open>Repainting\<close>

fun addRect :: "layer_id \<Rightarrow> rect \<Rightarrow> tilemap \<Rightarrow> tilemap" where
  "addRect Lower r tm =
     tm\<lparr> lowerLayer := (lowerLayer tm)\<lparr> calls := calls (lowerLayer tm) @ [AddRect r] \<rparr> \<rparr>"
| "addRect Upper r tm =
     tm\<lparr> upperLayer := (upperLayer tm)\<lparr> calls := calls (upperLayer tm) @ [AddRect r] \<rparr> \<rparr>"

fun emit :: "emitted \<Rightarrow> tilemap \<Rightarrow> tilemap" where
  "emit [] tm = tm"
| "emit ((layer, r) # rest) tm = emit rest (addRect layer r tm)"

definition clear :: "layer \<Rightarrow> layer" where
  "clear l = l\<lparr> calls := calls l @ [Clear] \<rparr>"

text \<open>
  The two loops of \<open>_addAllSpots\<close>: the rows \<open>y\<close> from 0 below \<open>tileRows\<close>, in each
  the columns \<open>x\<close> from 0 below \<open>tileCols\<close>.
\<close>

definition addAllSpotsLoop :: "tilemap \<Rightarrow> int \<Rightarrow> int \<Rightarrow> error + emitted" where
  "addAllSpotsLoop tm startX startY =
     (let widthWithMatgin = tm_width tm + rat_of_int (margin * 2);
          heightWithMatgin = tm_height tm + rat_of_int (margin * 2);
          tileCols = \<lceil>widthWithMatgin / rat_of_int tileWidth\<rceil> + 1;
          tileRows = \<lceil>heightWithMatgin / rat_of_int tileHeight\<rceil> + 1
      in foldr thenE
           (concat (map (\<lambda>y. map (\<lambda>x. addSpot tm startX startY x y) [0..tileCols - 1])
              [0..tileRows - 1]))
           (Inr []))"

text \<open>\<open>_addAllSpots\<close>: both layers are cleared, then the spots are added.\<close>

definition addAllSpots :: "int \<Rightarrow> int \<Rightarrow> tilemap \<Rightarrow> error + tilemap" where
  "addAllSpots startX startY tm =
     (let tm1 = tm\<lparr> lowerLayer := clear (lowerLayer tm), upperLayer := clear (upperLayer tm) \<rparr>
      in case addAllSpotsLoop tm startX startY of
           Inl e \<Rightarrow> Inl e
         | Inr rs \<Rightarrow> Inr (emit rs tm1))"

subsection \<open>The order of the children\<close>

definition layerOf :: "tilemap \<Rightarrow> layer_id \<Rightarrow> layer" where
  "layerOf tm l = (case l of Lower \<Rightarrow> lowerLayer tm | Upper \<Rightarrow> upperLayer tm)"

fun child_z :: "tilemap \<Rightarrow> child \<Rightarrow> rat" where
  "child_z tm (LayerChild l) = rat_of_int (layer_z (layerOf tm l))"
| "child_z tm (Drawable z y s) = z"

fun child_y :: "tilemap \<Rightarrow> child \<Rightarrow> rat" where
  "child_y tm (LayerChild l) = rat_of_int (layer_y (layerOf tm l))"
| "child_y tm (Drawable z y s) = y"

fun child_spriteId :: "child \<Rightarrow> int option" where
  "child_spriteId (LayerChild l) = None"
| "child_spriteId (Drawable z y s) = s"

text \<open>
  \<open>_compareChildOrder\<close>. The difference of two \<open>spriteId\<close>s is \<open>NaN\<close> (\<open>None\<close>) when
  one of them is \<open>undefined\<close>.
\<close>

definition compareChildOrder :: "tilemap \<Rightarrow> child \<Rightarrow> child \<Rightarrow> rat option" where
  "compareChildOrder tm a b =
     (if child_z tm a \<noteq> child_z tm b then Some (child_z tm a - child_z tm b)
      else if child_y tm a \<noteq> child_y tm b then Some (child_y tm a - child_y tm b)
      else (case (child_spriteId a, child_spriteId b) of
              (Some i, Some j) \<Rightarrow> Some (rat_of_int (i - j))
            | _ \<Rightarrow> None))"

text \<open>
  \<open>Array.prototype.sort\<close> with a comparator is a stable sort: \<open>a\<close> goes behind \<open>b\<close>
  only when the comparator's value is greater than 0 (\<open>NaN\<close> counts as 0). It is an
  insertion sort here.
\<close>

fun insertChild :: "(child \<Rightarrow> child \<Rightarrow> rat option) \<Rightarrow> child \<Rightarrow> child list \<Rightarrow> child list" where
  "insertChild cmp a [] = [a]"
| "insertChild cmp a (b # bs) =
     (if (case cmp a b of None \<Rightarrow> False | Some v \<Rightarrow> v > 0)
      then b # insertChild cmp a bs
      else a # b # bs)"

definition sortWith :: "(child \<Rightarrow> child \<Rightarrow> rat option) \<Rightarrow> child list \<Rightarrow> child list" where
  "sortWith cmp xs = foldr (insertChild cmp) xs []"

definition sortChildren :: "tilemap \<Rightarrow> tilemap" where
  "sortChildren tm = tm\<lparr> children := sortWith (compareChildOrder tm) (children tm) \<rparr>"

subsection \<open>\<open>updateTransform\<close>\<close>

text \<open>
  \<open>updateTransform\<close>, up to the call of the container's own \<open>updateTransform\<close> (of the
  PIXI library). The state after an exception is not modelled.
\<close>

definition updateTransform :: "tilemap \<Rightarrow> error + tilemap" where
  "updateTransform tm =
     (let ox = \<lceil>origin_x tm\<rceil>;
          oy = \<lceil>origin_y tm\<rceil>;
          startX = \<lfloor>rat_of_int (ox - margin) / rat_of_int tileWidth\<rfloor>;
          startY = \<lfloor>rat_of_int (oy - margin) / rat_of_int tileHeight\<rfloor>;
          tm1 = tm\<lparr>
            lowerLayer := (lowerLayer tm)\<lparr> layer_x := startX * tileWidth - ox,
                                           layer_y := startY * tileHeight - oy \<rparr>,
            upperLayer := (upperLayer tm)\<lparr> layer_x := startX * tileWidth - ox,
                                           layer_y := startY * tileHeight - oy \<rparr> \<rparr>
      in if needsRepaint tm1 \<or>
            lastAnimationFrame tm1 \<noteq> animationFrame tm1 \<or>
            lastStartX tm1 \<noteq> Some startX \<or>
            lastStartY tm1 \<noteq> Some startY
         then
           (case addAllSpots startX startY
                   (tm1\<lparr> lastAnimationFrame := animationFrame tm1,
                         lastStartX := Some startX,
                         lastStartY := Some startY \<rparr>) of
              Inl e \<Rightarrow> Inl e
            | Inr tm2 \<Rightarrow> Inr (sortChildren (tm2\<lparr> needsRepaint := False \<rparr>)))
         else Inr (sortChildren tm1))"

section \<open>Notions of the properties\<close>

text \<open>The table that \<open>_addAutotile\<close> selects for a tile id.\<close>

definition tableOf :: "tilemap \<Rightarrow> int \<Rightarrow> (int \<times> int) list list" where
  "tableOf tm tileId = fst (snd (snd (snd (autotileSource tm tileId))))"

text \<open>The rectangles among emitted calls that go to one layer.\<close>

definition rectsFor :: "layer_id \<Rightarrow> emitted \<Rightarrow> rect list" where
  "rectsFor layer rs = map snd (filter (\<lambda>c. fst c = layer) rs)"

text \<open>
  The sort key of a child: \<open>z\<close>, then \<open>y\<close>, then \<open>spriteId\<close> (0 for a child without
  one), in the lexicographic order.
\<close>

definition childKey :: "tilemap \<Rightarrow> child \<Rightarrow> rat \<times> rat \<times> int" where
  "childKey tm c =
     (child_z tm c, child_y tm c, (case child_spriteId c of None \<Rightarrow> 0 | Some i \<Rightarrow> i))"

text \<open>
  Two tilemaps agree on everything the expansion of a spot reads: the map, the loop
  flags, the tileset flags, the animation frame and the size of the view.
\<close>

definition sameMap :: "tilemap \<Rightarrow> tilemap \<Rightarrow> bool" where
  "sameMap a b \<longleftrightarrow>
     mapData a = mapData b \<and> mapWidth a = mapWidth b \<and> mapHeight a = mapHeight b \<and>
     horizontalWrap a = horizontalWrap b \<and> verticalWrap a = verticalWrap b \<and>
     flags a = flags b \<and> animationFrame a = animationFrame b \<and>
     tm_width a = tm_width b \<and> tm_height a = tm_height b"

text \<open>
  The tilemap at the start of a repaint: the layers moved and cleared, the frame and
  the start of the window committed.
\<close>

definition commitState :: "tilemap \<Rightarrow> int \<Rightarrow> int \<Rightarrow> tilemap" where
  "commitState tm startX startY =
     tm\<lparr> lastAnimationFrame := animationFrame tm,
         lastStartX := Some startX,
         lastStartY := Some startY,
         lowerLayer := clear ((lowerLayer tm)\<lparr> layer_x := startX * tileWidth - \<lceil>origin_x tm\<rceil>,
                                           layer_y := startY * tileHeight - \<lceil>origin_y tm\<rceil> \<rparr>),
         upperLayer := clear ((upperLayer tm)\<lparr> layer_x := startX * tileWidth - \<lceil>origin_x tm\<rceil>,
                                           layer_y := startY * tileHeight - \<lceil>origin_y tm\<rceil> \<rparr>) \<rparr>"

text \<open>
  A sequence of calls on a tilemap, one after the other; an exception ends it.
\<close>

fun run :: "(tilemap \<Rightarrow> error + tilemap) list \<Rightarrow> tilemap \<Rightarrow> error + tilemap" where
  "run [] tm = Inr tm"
| "run (f # fs) tm = (case f tm of Inl e \<Rightarrow> Inl e | Inr t \<Rightarrow> run fs t)"

section \<open>Example tilemaps\<close>

text \<open>A map of one row of ten tiles, read with and without the horizontal loop.\<close>

definition rowMap :: tilemap where
  "rowMap = setData 10 1 (Some [11, 12, 13, 14, 15, 16, 17, 18, 19, 20]) (initialize 816 624)"

definition loopedRowMap :: tilemap where
  "loopedRowMap = rowMap\<lparr> horizontalWrap := True \<rparr>"

text \<open>
  A map of a single cell with the deep-water base tile on plane 0, in a view of 8 by 8
  pixels, after one \<open>update\<close> (the animation frame is 0).
\<close>

definition deepWaterMap :: tilemap where
  "deepWaterMap = update (setData 1 1 (Some [2048, 0, 0, 0, 0]) (initialize 8 8))"

text \<open>
  A map one cell wide and two high: a table tile (2816, flagged \<open>0x80\<close>) on plane 1 of
  the upper cell, and the simple tile 1 on plane 0 of the lower cell.
\<close>

definition tableMap :: tilemap where
  "tableMap =
     (update (setData 1 2 (Some [0, 1, 2816, 0]) (initialize 8 8)))
       \<lparr> flags := replicate 2816 0 @ [0x80] \<rparr>"



section \<open>Tile ids\<close>

lemma js_rem_nonneg: "0 \<le> a \<Longrightarrow> 0 < b \<Longrightarrow> js_rem a b = a mod b"
  by (cases "a = 0") (simp_all add: js_rem_def)

lemmas tile_id_defs =
  TILE_ID_A1_def TILE_ID_A2_def TILE_ID_A3_def TILE_ID_A4_def TILE_ID_A5_def TILE_ID_MAX_def

lemmas bank_defs = isTileA1_def isTileA2_def isTileA3_def isTileA4_def isTileA5_def

lemma toDouble_exact:
  assumes "\<bar>n\<bar> < 2 ^ 53"
  shows "toDouble n = Some n"
proof -
  have "bitlen \<bar>n\<bar> \<le> 53"
    using assms by (simp add: bitlen_le_iff_power)
  then show ?thesis
    by (simp add: toDouble_def)
qed

text \<open>
  C6, as the claim states it, fails: the sums of \<open>makeAutotileId\<close> are rounded beyond
  \<open>2^53\<close>. For the kind 187649984473771 and the shape 47 the id made is
  9007199254743104, of kind 187649984473772 and shape 0; and from the kind
  187649984473728 on, where \<open>TILE_ID_A1 + kind * 48\<close> is \<open>2^53\<close>, the shape 1 is lost.
  (Of both ids the difference to \<open>TILE_ID_A1\<close> is a multiple of 48 that a double holds,
  so the program computes their kind and shape without rounding.)
\<close>

theorem autotile_id_roundtrip_counterexample:
  "(0 :: int) \<le> 187649984473771 \<and> (0 :: int) \<le> 47 \<and> (47 :: int) < 48 \<and>
   makeAutotileId 187649984473771 47 = Some 9007199254743104 \<and>
   map_option getAutotileKind (makeAutotileId 187649984473771 47) = Some 187649984473772 \<and>
   map_option getAutotileShape (makeAutotileId 187649984473771 47) = Some 0 \<and>
   makeAutotileId 187649984473728 1 = Some 9007199254740992 \<and>
   map_option getAutotileKind (makeAutotileId 187649984473728 1) = Some 187649984473728 \<and>
   map_option getAutotileShape (makeAutotileId 187649984473728 1) = Some 0"
  by code_simp

text \<open>
  C6, amended: for every kind \<open>k\<close> with \<open>0 \<le> k < 187649984473728\<close> (the kinds for which
  \<open>TILE_ID_A1 + k * 48 + 47\<close> is below \<open>2^53\<close>) and every shape \<open>s\<close> with \<open>0 \<le> s < 48\<close>,
  \<open>makeAutotileId k s\<close> is the exact \<open>TILE_ID_A1 + k * 48 + s\<close>, its kind is \<open>k\<close> and its
  shape is \<open>s\<close>.
\<close>

theorem autotile_id_roundtrip:
  assumes "0 \<le> k" and "k < 187649984473728" and "0 \<le> s" and "s < 48"
  shows "makeAutotileId k s = Some (TILE_ID_A1 + k * 48 + s) \<and>
         map_option getAutotileKind (makeAutotileId k s) = Some k \<and>
         map_option getAutotileShape (makeAutotileId k s) = Some s"
proof -
  have product: "toDouble (k * 48) = Some (k * 48)"
    using assms by (intro toDouble_exact) simp
  have base: "toDouble (TILE_ID_A1 + k * 48) = Some (TILE_ID_A1 + k * 48)"
    using assms by (intro toDouble_exact) (simp add: TILE_ID_A1_def)
  have total: "toDouble (TILE_ID_A1 + k * 48 + s) = Some (TILE_ID_A1 + k * 48 + s)"
    using assms by (intro toDouble_exact) (simp add: TILE_ID_A1_def)
  have made: "makeAutotileId k s = Some (TILE_ID_A1 + k * 48 + s)"
    by (simp add: makeAutotileId_def product base total)
  have nonneg: "0 \<le> k * 48 + s"
    using assms by simp
  have "(k * 48 + s) div 48 = k"
    using assms by simp
  moreover have "(k * 48 + s) mod 48 = s"
    using assms by simp
  ultimately show ?thesis
    using nonneg made
    by (simp add: getAutotileKind_def getAutotileShape_def js_rem_nonneg)
qed

theorem autotile_id_roundtrip_witness:
  "makeAutotileId 3 47 = Some 2239 \<and>
   map_option getAutotileKind (makeAutotileId 3 47) = Some 3 \<and>
   map_option getAutotileShape (makeAutotileId 3 47) = Some 47 \<and>
   makeAutotileId 187649984473727 47 = Some 9007199254740991 \<and>
   map_option getAutotileKind (makeAutotileId 187649984473727 47) = Some 187649984473727 \<and>
   map_option getAutotileShape (makeAutotileId 187649984473727 47) = Some 47"
  using autotile_id_roundtrip [of 3 47] autotile_id_roundtrip [of 187649984473727 47]
  by (auto simp add: TILE_ID_A1_def)

text \<open>
  C7: of the five bank predicates \<open>isTileA1\<close> ... \<open>isTileA5\<close> and the simple banks
  (\<open>t < TILE_ID_A5\<close>), exactly one holds for every tile id \<open>t\<close> of \<open>[0, TILE_ID_MAX)\<close>,
  so for every visible one; no two of them hold of any \<open>t\<close>; and the boundary constants
  are in the order A5 < A1 < A2 < A3 < A4 < MAX.
\<close>

theorem bank_partition:
  "(0 \<le> t \<and> t < TILE_ID_MAX \<longrightarrow>
      length (filter (\<lambda>b. b)
        [isTileA1 t, isTileA2 t, isTileA3 t, isTileA4 t, isTileA5 t, t < TILE_ID_A5]) = 1) \<and>
   (isVisibleTile t \<longrightarrow>
      length (filter (\<lambda>b. b)
        [isTileA1 t, isTileA2 t, isTileA3 t, isTileA4 t, isTileA5 t, t < TILE_ID_A5]) = 1) \<and>
   length (filter (\<lambda>b. b)
     [isTileA1 t, isTileA2 t, isTileA3 t, isTileA4 t, isTileA5 t, t < TILE_ID_A5]) \<le> 1 \<and>
   TILE_ID_A5 < TILE_ID_A1 \<and> TILE_ID_A1 < TILE_ID_A2 \<and> TILE_ID_A2 < TILE_ID_A3 \<and>
   TILE_ID_A3 < TILE_ID_A4 \<and> TILE_ID_A4 < TILE_ID_MAX"
  by (simp add: bank_defs tile_id_defs isVisibleTile_def)

theorem bank_partition_witness:
  "isVisibleTile 2816 \<and> isTileA2 2816 \<and>
   length (filter (\<lambda>b. b)
     [isTileA1 2816, isTileA2 2816, isTileA3 2816, isTileA4 2816, isTileA5 2816,
      2816 < TILE_ID_A5]) = 1"
  using bank_partition [of 2816] by (simp add: bank_defs tile_id_defs isVisibleTile_def)

section \<open>The shape tables\<close>

lemma floor_table_length: "length FLOOR_AUTOTILE_TABLE = 48"
  by (simp add: FLOOR_AUTOTILE_TABLE_def)

lemma wall_table_length: "length WALL_AUTOTILE_TABLE = 16"
  by (simp add: WALL_AUTOTILE_TABLE_def)

lemma waterfall_table_length: "length WATERFALL_AUTOTILE_TABLE = 4"
  by (simp add: WATERFALL_AUTOTILE_TABLE_def)

lemma floor_table_entries: "\<forall>e \<in> set FLOOR_AUTOTILE_TABLE. length e = 4"
  by (simp add: FLOOR_AUTOTILE_TABLE_def)

lemma wall_table_entries: "\<forall>e \<in> set WALL_AUTOTILE_TABLE. length e = 4"
  by (simp add: WALL_AUTOTILE_TABLE_def)

lemma waterfall_table_entries: "\<forall>e \<in> set WATERFALL_AUTOTILE_TABLE. length e = 4"
  by (simp add: WATERFALL_AUTOTILE_TABLE_def)

text \<open>
  C4, as the claim states it, fails: the floor table has coordinates equal to 5, for
  one in the third pair of the entry 28.
\<close>

theorem floor_table_range_counterexample:
  "(28 :: nat) < length FLOOR_AUTOTILE_TABLE \<and>
   FLOOR_AUTOTILE_TABLE ! 28 = [(2, 4), (1, 4), (2, 5), (1, 5)] \<and>
   snd (FLOOR_AUTOTILE_TABLE ! 28 ! 2) = 5 \<and>
   \<not> snd (FLOOR_AUTOTILE_TABLE ! 28 ! 2) \<le> 4"
  by (simp add: FLOOR_AUTOTILE_TABLE_def)

text \<open>
  C4, amended: the floor table has exactly 48 entries, the wall table 16 and the
  waterfall table 4; every entry of each table has exactly 4 coordinate pairs; and
  every coordinate of a floor-table entry is an integer in the range 0 to 5 (the first
  of a pair at most 3).
\<close>

theorem shape_tables_sizes:
  "length FLOOR_AUTOTILE_TABLE = 48 \<and>
   length WALL_AUTOTILE_TABLE = 16 \<and>
   length WATERFALL_AUTOTILE_TABLE = 4 \<and>
   (\<forall>e \<in> set FLOOR_AUTOTILE_TABLE. length e = 4) \<and>
   (\<forall>e \<in> set WALL_AUTOTILE_TABLE. length e = 4) \<and>
   (\<forall>e \<in> set WATERFALL_AUTOTILE_TABLE. length e = 4) \<and>
   (\<forall>e \<in> set FLOOR_AUTOTILE_TABLE. \<forall>q \<in> set e.
      0 \<le> fst q \<and> fst q \<le> 3 \<and> 0 \<le> snd q \<and> snd q \<le> 5)"
proof -
  have "\<forall>e \<in> set FLOOR_AUTOTILE_TABLE. \<forall>q \<in> set e.
      0 \<le> fst q \<and> fst q \<le> 3 \<and> 0 \<le> snd q \<and> snd q \<le> 5"
    by (simp add: FLOOR_AUTOTILE_TABLE_def)
  then show ?thesis
    using floor_table_length wall_table_length waterfall_table_length
      floor_table_entries wall_table_entries waterfall_table_entries
    by blast
qed

theorem shape_tables_sizes_witness:
  "FLOOR_AUTOTILE_TABLE ! 28 \<in> set FLOOR_AUTOTILE_TABLE \<and>
   length (FLOOR_AUTOTILE_TABLE ! 28) = 4 \<and>
   FLOOR_AUTOTILE_TABLE ! 28 ! 2 = (2, 5)"
  using shape_tables_sizes by (simp add: FLOOR_AUTOTILE_TABLE_def)

section \<open>Reading the map\<close>

lemma readMapData_horizontal:
  assumes "horizontalWrap tm"
  shows "readMapData tm x y z = readMapData tm (number_mod x (mapWidth tm)) y z"
proof -
  have "number_mod (number_mod x (mapWidth tm)) (mapWidth tm) = number_mod x (mapWidth tm)"
    by (simp add: number_mod_def)
  then show ?thesis
    unfolding readMapData_def using assms by presburger
qed

lemma readMapData_vertical:
  assumes "verticalWrap tm"
  shows "readMapData tm x y z = readMapData tm x (number_mod y (mapHeight tm)) z"
proof -
  have "number_mod (number_mod y (mapHeight tm)) (mapHeight tm) = number_mod y (mapHeight tm)"
    by (simp add: number_mod_def)
  then show ?thesis
    unfolding readMapData_def using assms by presburger
qed

text \<open>
  C2: for every plane \<open>z\<close>, with the horizontal (vertical) loop enabled a read at \<open>x\<close>
  (\<open>y\<close>) is the read at \<open>x mod width\<close> (\<open>y mod height\<close>), the mathematical modulo: with
  the width 10, the read at \<open>x = -1\<close> is the read at \<open>x = 9\<close> and the read at \<open>x = 10\<close>
  is the read at \<open>x = 0\<close>. With the loop of an axis disabled, a read outside the map on
  that axis is 0.
\<close>

theorem readMapData_wrap_and_bounds:
  "(horizontalWrap tm \<longrightarrow> readMapData tm x y z = readMapData tm (x mod mapWidth tm) y z) \<and>
   (verticalWrap tm \<longrightarrow> readMapData tm x y z = readMapData tm x (y mod mapHeight tm) z) \<and>
   (horizontalWrap tm \<and> mapWidth tm = 10 \<longrightarrow>
      readMapData tm (- 1) y z = readMapData tm 9 y z \<and>
      readMapData tm 10 y z = readMapData tm 0 y z) \<and>
   (\<not> horizontalWrap tm \<and> (x < 0 \<or> mapWidth tm \<le> x) \<longrightarrow> readMapData tm x y z = 0) \<and>
   (\<not> verticalWrap tm \<and> (y < 0 \<or> mapHeight tm \<le> y) \<longrightarrow> readMapData tm x y z = 0)"
proof -
  have h: "horizontalWrap tm \<Longrightarrow> readMapData tm x y z = readMapData tm (x mod mapWidth tm) y z"
    for x
    using readMapData_horizontal [of tm x y z] by (simp add: number_mod_def)
  have v: "verticalWrap tm \<Longrightarrow> readMapData tm x y z = readMapData tm x (y mod mapHeight tm) z"
    using readMapData_vertical [of tm x y z] by (simp add: number_mod_def)
  have ten: "readMapData tm (- 1) y z = readMapData tm 9 y z \<and>
      readMapData tm 10 y z = readMapData tm 0 y z"
    if "horizontalWrap tm" and "mapWidth tm = 10"
    using h [OF that(1), of "- 1"] h [OF that(1), of 10] that(2) by simp
  have oh: "readMapData tm x y z = 0" if "\<not> horizontalWrap tm" and "x < 0 \<or> mapWidth tm \<le> x"
    using that by (auto simp add: readMapData_def Let_def split: option.splits)
  have ov: "readMapData tm x y z = 0" if "\<not> verticalWrap tm" and "y < 0 \<or> mapHeight tm \<le> y"
    using that by (auto simp add: readMapData_def Let_def split: option.splits)
  show ?thesis
    using h v ten oh ov by blast
qed

theorem readMapData_wrap_and_bounds_witness:
  "horizontalWrap loopedRowMap \<and> mapWidth loopedRowMap = 10 \<and>
   readMapData loopedRowMap (- 1) 0 0 = readMapData loopedRowMap 9 0 0 \<and>
   readMapData loopedRowMap 9 0 0 = 20 \<and>
   readMapData loopedRowMap 10 0 0 = readMapData loopedRowMap 0 0 0 \<and>
   readMapData loopedRowMap 0 0 0 = 11 \<and>
   \<not> horizontalWrap rowMap \<and> \<not> verticalWrap rowMap \<and>
   readMapData rowMap (- 1) 0 0 = 0 \<and> readMapData rowMap 10 0 0 = 0 \<and>
   readMapData rowMap 0 1 0 = 0 \<and> readMapData rowMap 9 0 0 = 20"
  using readMapData_wrap_and_bounds [of loopedRowMap "- 1" 0 0]
    readMapData_wrap_and_bounds [of rowMap "- 1" 0 0]
    readMapData_wrap_and_bounds [of rowMap 10 0 0]
    readMapData_wrap_and_bounds [of rowMap 0 1 0]
  by (simp add: loopedRowMap_def rowMap_def setData_def initialize_def readMapData_def
      number_mod_def array_get_def)

text \<open>
  C10: while the map data is \<open>null\<close>, as it is in a freshly constructed tilemap (before
  \<open>setData\<close>), \<open>_readMapData\<close> returns 0 at every coordinate and plane, whatever the loop
  flags are.
\<close>

theorem readMapData_without_data:
  "(mapData tm = None \<longrightarrow> readMapData tm x y z = 0) \<and>
   readMapData ((initialize graphicsWidth graphicsHeight)
     \<lparr> horizontalWrap := hw, verticalWrap := vw \<rparr>) x y z = 0"
  by (simp add: readMapData_def initialize_def)

theorem readMapData_without_data_witness:
  "mapData (initialize 816 624) = None \<and> readMapData (initialize 816 624) (- 3) 7 2 = 0"
  using readMapData_without_data [of "initialize 816 624" "- 3" 7 2]
  by (simp add: initialize_def)

section \<open>Autotiles\<close>

lemma thenE_assoc: "thenE (thenE a b) c = thenE a (thenE b c)"
  by (cases a; cases b; cases c) simp_all

lemma upto_0_3: "[0..3] = [0, 1, 2, 3 :: int]"
  by (simp add: upto.simps)

lemma upto_0_1: "[0..1] = [0, 1 :: int]"
  by (simp add: upto.simps)

lemma forQuadrants_four:
  assumes "length e = 4"
  shows "forQuadrants 0 body e [0..3] =
    Inr (body 0 (e ! 0) @ body 1 (e ! 1) @ body 2 (e ! 2) @ body 3 (e ! 3))"
proof -
  obtain a b c d where e: "e = [a, b, c, d]"
    using assms by (auto simp add: length_Suc_conv numeral_eq_Suc)
  show ?thesis
    by (simp add: e upto_0_3 array_get_def)
qed

lemma forQuadrants_edge:
  assumes "length e = 4"
  shows "forQuadrants 2 body e [0..1] = Inr (body 0 (e ! 2) @ body 1 (e ! 3))"
proof -
  obtain a b c d where e: "e = [a, b, c, d]"
    using assms by (auto simp add: length_Suc_conv numeral_eq_Suc)
  show ?thesis
    by (simp add: e upto_0_1 array_get_def)
qed

lemma tableOf_cases:
  "tableOf tm t =
     (if isTileA3 t \<or> (isTileA4 t \<and> js_rem (getAutotileKind t div 8) 2 = 1)
      then WALL_AUTOTILE_TABLE
      else if isTileA1 t \<and> getAutotileKind t \<notin> {0, 1, 2, 3} \<and> js_rem (getAutotileKind t) 2 \<noteq> 0
      then WATERFALL_AUTOTILE_TABLE
      else FLOOR_AUTOTILE_TABLE)"
  by (auto simp add: tableOf_def autotileSource_def Let_def bank_defs tile_id_defs)

lemma tableOf_entries: "\<forall>e \<in> set (tableOf tm t). length e = 4"
  using floor_table_entries wall_table_entries waterfall_table_entries
  by (simp add: tableOf_cases)

lemma addAutotile_result:
  "addAutotile tm layer t dx dy =
     (case array_get (tableOf tm t) (getAutotileShape t) of
        None \<Rightarrow> Inl TypeError
      | Some e \<Rightarrow>
          (case autotileSource tm t of
             (sn, bx, by1, tbl, isT) \<Rightarrow>
               Inr (concat (map (\<lambda>i. autotileQuadrant layer sn bx by1 isT dx dy (int i) (e ! i))
                      [0..<4]))))"
proof (cases "autotileSource tm t")
  case (fields sn bx by1 tbl isT)
  then have tbl: "tableOf tm t = tbl"
    by (simp add: tableOf_def)
  show ?thesis
  proof (cases "array_get tbl (getAutotileShape t)")
    case None
    then show ?thesis
      by (simp add: addAutotile_def fields tbl)
  next
    case (Some e)
    then have "e \<in> set tbl"
      by (auto simp add: array_get_def split: if_splits)
    then have "length e = 4"
      using tableOf_entries [of tm t] tbl by simp
    then show ?thesis
      using Some
      by (simp add: addAutotile_def fields tbl forQuadrants_four upt_rec numeral_eq_Suc)
  qed
qed

lemma shape_range: "TILE_ID_A1 \<le> t \<Longrightarrow> 0 \<le> getAutotileShape t \<and> getAutotileShape t < 48"
  by (simp add: getAutotileShape_def js_rem_nonneg)

lemma addTile_ok_iff:
  assumes "isVisibleTile t"
  shows "(\<exists>rs. addTile tm layer t dx dy = Inr rs) \<longleftrightarrow>
         (isAutotile t \<longrightarrow> getAutotileShape t < int (length (tableOf tm t)))"
proof (cases "isAutotile t")
  case False
  then show ?thesis
    using assms by (simp add: addTile_def)
next
  case True
  then have "0 \<le> getAutotileShape t"
    using shape_range [of t] by (simp add: isAutotile_def)
  then show ?thesis
    using assms True
    by (auto simp add: addTile_def addAutotile_result array_get_def split: prod.splits)
qed

text \<open>
  C3, as the claim states it, fails: the tile id 4368 is an A3 autotile of shape 16, the
  wall table selected for it has the 16 entries 0 to 15, and \<open>_addTile\<close> throws.
\<close>

theorem addTile_wall_shape_counterexample:
  "0 < (4368 :: int) \<and> 4368 < TILE_ID_MAX \<and> isTileA3 4368 \<and> getAutotileShape 4368 = 16 \<and>
   tableOf (initialize 816 624) 4368 = WALL_AUTOTILE_TABLE \<and>
   length WALL_AUTOTILE_TABLE = 16 \<and>
   addTile (initialize 816 624) Lower 4368 0 0 = Inl TypeError"
  by (simp add: addTile_def isVisibleTile_def isAutotile_def addAutotile_result tableOf_cases
      bank_defs tile_id_defs getAutotileShape_def js_rem_def array_get_def wall_table_length)

text \<open>
  C3, amended: for every tile id with \<open>0 < tileId < TILE_ID_MAX\<close>, \<open>_addTile\<close> completes
  without an exception exactly when the id is not an autotile or its shape index
  \<open>(tileId - TILE_ID_A1) mod 48\<close> is within the table selected for it; otherwise it
  throws a \<open>TypeError\<close>. The selected table is the wall table (16 entries) for the A3
  ids and the A4 ids of an odd row of kinds, the waterfall table (4 entries) for the A1
  ids of an odd kind above 3, and the floor table (48 entries, so every shape is
  within it) for all other ids.
\<close>

theorem addTile_completes_iff:
  assumes "0 < tileId" and "tileId < TILE_ID_MAX"
  shows
    "((\<exists>rs. addTile tm layer tileId dx dy = Inr rs) \<longleftrightarrow>
        (isAutotile tileId \<longrightarrow> getAutotileShape tileId < int (length (tableOf tm tileId)))) \<and>
     (addTile tm layer tileId dx dy = Inl TypeError \<longleftrightarrow>
        isAutotile tileId \<and> int (length (tableOf tm tileId)) \<le> getAutotileShape tileId) \<and>
     tableOf tm tileId =
       (if isTileA3 tileId \<or> (isTileA4 tileId \<and> js_rem (getAutotileKind tileId div 8) 2 = 1)
        then WALL_AUTOTILE_TABLE
        else if isTileA1 tileId \<and> 3 < getAutotileKind tileId \<and>
                js_rem (getAutotileKind tileId) 2 \<noteq> 0
        then WATERFALL_AUTOTILE_TABLE
        else FLOOR_AUTOTILE_TABLE) \<and>
     (isAutotile tileId \<longrightarrow> 0 \<le> getAutotileShape tileId \<and> getAutotileShape tileId < 48) \<and>
     length FLOOR_AUTOTILE_TABLE = 48 \<and> length WALL_AUTOTILE_TABLE = 16 \<and>
     length WATERFALL_AUTOTILE_TABLE = 4"
proof -
  have visible: "isVisibleTile tileId"
    using assms by (simp add: isVisibleTile_def)
  note ok = addTile_ok_iff [OF visible, of tm layer dx dy]
  have err: "addTile tm layer tileId dx dy = Inl TypeError \<longleftrightarrow>
      isAutotile tileId \<and> int (length (tableOf tm tileId)) \<le> getAutotileShape tileId"
  proof (cases "addTile tm layer tileId dx dy")
    case (Inl e)
    then show ?thesis
      using ok by (cases e) auto
  next
    case (Inr rs)
    then show ?thesis
      using ok by auto
  qed
  have kind: "0 \<le> getAutotileKind tileId" if "isTileA1 tileId"
    using that by (simp add: isTileA1_def getAutotileKind_def pos_imp_zdiv_nonneg_iff)
  have table: "tableOf tm tileId =
       (if isTileA3 tileId \<or> (isTileA4 tileId \<and> js_rem (getAutotileKind tileId div 8) 2 = 1)
        then WALL_AUTOTILE_TABLE
        else if isTileA1 tileId \<and> 3 < getAutotileKind tileId \<and>
                js_rem (getAutotileKind tileId) 2 \<noteq> 0
        then WATERFALL_AUTOTILE_TABLE
        else FLOOR_AUTOTILE_TABLE)"
    using kind by (auto simp add: tableOf_cases)
  have shape: "0 \<le> getAutotileShape tileId \<and> getAutotileShape tileId < 48" if "isAutotile tileId"
    using that shape_range [of tileId] by (simp add: isAutotile_def)
  show ?thesis
    using ok err table shape floor_table_length wall_table_length waterfall_table_length
    by blast
qed

theorem addTile_completes_iff_witness:
  "0 < (4352 :: int) \<and> 4352 < TILE_ID_MAX \<and> isAutotile 4352 \<and>
   getAutotileShape 4352 = 0 \<and>
   tableOf (initialize 816 624) 4352 = WALL_AUTOTILE_TABLE \<and>
   (\<exists>rs. addTile (initialize 816 624) Lower 4352 0 0 = Inr rs)"
  using addTile_completes_iff [of 4352 "initialize 816 624" Lower 0 0]
  by (auto simp add: tile_id_defs isAutotile_def getAutotileShape_def js_rem_def isTileA3_def)

section \<open>The order of the children\<close>

lemma comes_after_iff:
  assumes "child_spriteId a \<noteq> None" and "child_spriteId b \<noteq> None"
  shows "(case compareChildOrder tm a b of None \<Rightarrow> False | Some v \<Rightarrow> v > 0) \<longleftrightarrow>
         childKey tm b < childKey tm a"
  using assms by (auto simp add: compareChildOrder_def childKey_def)

lemma mset_insertChild: "mset (insertChild cmp a bs) = add_mset a (mset bs)"
  by (induction bs) auto

lemma mset_sortWith: "mset (sortWith cmp cs) = mset cs"
  unfolding sortWith_def by (induction cs) (auto simp add: mset_insertChild)

lemma set_insertChild: "set (insertChild cmp a bs) = insert a (set bs)"
  by (induction bs) auto

lemma set_sortWith: "set (sortWith cmp cs) = set cs"
  unfolding sortWith_def by (induction cs) (auto simp add: set_insertChild)

lemma sorted_insertChild:
  assumes "child_spriteId a \<noteq> None"
    and "\<forall>c \<in> set bs. child_spriteId c \<noteq> None"
    and "sorted (map (childKey tm) bs)"
  shows "sorted (map (childKey tm) (insertChild (compareChildOrder tm) a bs))"
  using assms
proof (induction bs)
  case Nil
  then show ?case by simp
next
  case (Cons b bs)
  show ?case
  proof (cases "childKey tm b < childKey tm a")
    case True
    then have step: "insertChild (compareChildOrder tm) a (b # bs) =
        b # insertChild (compareChildOrder tm) a bs"
      using comes_after_iff [of a b tm] Cons.prems by simp
    have "sorted (map (childKey tm) (insertChild (compareChildOrder tm) a bs))"
      using Cons by simp
    moreover have "\<forall>c \<in> set (insertChild (compareChildOrder tm) a bs).
        childKey tm b \<le> childKey tm c"
      using Cons.prems(3) True by (auto simp add: set_insertChild)
    ultimately show ?thesis
      using step by simp
  next
    case False
    then have step: "insertChild (compareChildOrder tm) a (b # bs) = a # b # bs"
      using comes_after_iff [of a b tm] Cons.prems by simp
    have "\<forall>c \<in> set (b # bs). childKey tm a \<le> childKey tm c"
      using Cons.prems(3) False by fastforce
    then show ?thesis
      using step Cons.prems(3) by simp
  qed
qed

lemma sorted_sortWith:
  assumes "\<forall>c \<in> set cs. child_spriteId c \<noteq> None"
  shows "sorted (map (childKey tm) (sortWith (compareChildOrder tm) cs))"
  using assms
proof (induction cs)
  case Nil
  then show ?case by (simp add: sortWith_def)
next
  case (Cons c cs)
  have "sortWith (compareChildOrder tm) (c # cs) =
      insertChild (compareChildOrder tm) c (sortWith (compareChildOrder tm) cs)"
    by (simp add: sortWith_def)
  then show ?case
    using Cons sorted_insertChild [of c "sortWith (compareChildOrder tm) cs" tm]
    by (simp add: set_sortWith)
qed

text \<open>
  C9: the comparator is negative for a smaller \<open>z\<close>, for an equal \<open>z\<close> and a smaller
  \<open>y\<close>, and for equal \<open>z\<close> and \<open>y\<close> and a smaller \<open>spriteId\<close>; on children that have a
  \<open>spriteId\<close> it is the lexicographic order of \<open>(z, y, spriteId)\<close>, and sorting a list
  of them gives a permutation in that order. Three drawables with \<open>z = 4, 0, 0\<close> and,
  on the two of \<open>z = 0\<close>, \<open>y = 10, 5\<close>, given in any order and with any \<open>spriteId\<close>s,
  sort to \<open>(z = 0, y = 5)\<close>, \<open>(z = 0, y = 10)\<close>, \<open>(z = 4)\<close>.
\<close>

theorem child_order:
  "(child_z tm a < child_z tm b \<longrightarrow>
      (\<exists>v. compareChildOrder tm a b = Some v \<and> v < 0)) \<and>
   (child_z tm a = child_z tm b \<and> child_y tm a < child_y tm b \<longrightarrow>
      (\<exists>v. compareChildOrder tm a b = Some v \<and> v < 0)) \<and>
   (child_z tm a = child_z tm b \<and> child_y tm a = child_y tm b \<and>
    child_spriteId a = Some i \<and> child_spriteId b = Some j \<and> i < j \<longrightarrow>
      (\<exists>v. compareChildOrder tm a b = Some v \<and> v < 0)) \<and>
   (child_spriteId a \<noteq> None \<and> child_spriteId b \<noteq> None \<longrightarrow>
      ((\<exists>v. compareChildOrder tm a b = Some v \<and> v < 0) \<longleftrightarrow> childKey tm a < childKey tm b) \<and>
      ((\<exists>v. compareChildOrder tm a b = Some v \<and> v > 0) \<longleftrightarrow> childKey tm b < childKey tm a) \<and>
      (compareChildOrder tm a b = Some 0 \<longleftrightarrow> childKey tm a = childKey tm b)) \<and>
   ((\<forall>c \<in> set cs. child_spriteId c \<noteq> None) \<longrightarrow>
      sorted (map (childKey tm) (sortWith (compareChildOrder tm) cs))) \<and>
   mset (sortWith (compareChildOrder tm) cs) = mset cs \<and>
   (\<forall>xs \<in> {[Drawable 4 ya sa, Drawable 0 10 sb, Drawable 0 5 sc],
             [Drawable 4 ya sa, Drawable 0 5 sc, Drawable 0 10 sb],
             [Drawable 0 10 sb, Drawable 4 ya sa, Drawable 0 5 sc],
             [Drawable 0 10 sb, Drawable 0 5 sc, Drawable 4 ya sa],
             [Drawable 0 5 sc, Drawable 4 ya sa, Drawable 0 10 sb],
             [Drawable 0 5 sc, Drawable 0 10 sb, Drawable 4 ya sa]}.
      sortWith (compareChildOrder tm) xs =
        [Drawable 0 5 sc, Drawable 0 10 sb, Drawable 4 ya sa] \<and>
      children (sortChildren (tm\<lparr> children := xs \<rparr>)) =
        [Drawable 0 5 sc, Drawable 0 10 sb, Drawable 4 ya sa])"
proof -
  have keys: "(\<exists>v. compareChildOrder tm a b = Some v \<and> v < 0) \<longleftrightarrow> childKey tm a < childKey tm b"
    "(\<exists>v. compareChildOrder tm a b = Some v \<and> v > 0) \<longleftrightarrow> childKey tm b < childKey tm a"
    "compareChildOrder tm a b = Some 0 \<longleftrightarrow> childKey tm a = childKey tm b"
    if "child_spriteId a \<noteq> None" and "child_spriteId b \<noteq> None"
    using that by (auto simp add: compareChildOrder_def childKey_def)
  have scenario: "sortWith (compareChildOrder t) xs =
        [Drawable 0 5 sc, Drawable 0 10 sb, Drawable 4 ya sa]"
    if "xs \<in> {[Drawable 4 ya sa, Drawable 0 10 sb, Drawable 0 5 sc],
             [Drawable 4 ya sa, Drawable 0 5 sc, Drawable 0 10 sb],
             [Drawable 0 10 sb, Drawable 4 ya sa, Drawable 0 5 sc],
             [Drawable 0 10 sb, Drawable 0 5 sc, Drawable 4 ya sa],
             [Drawable 0 5 sc, Drawable 4 ya sa, Drawable 0 10 sb],
             [Drawable 0 5 sc, Drawable 0 10 sb, Drawable 4 ya sa]}" for xs t
    using that by (auto simp add: sortWith_def compareChildOrder_def)
  have "(child_z tm a < child_z tm b \<longrightarrow>
      (\<exists>v. compareChildOrder tm a b = Some v \<and> v < 0)) \<and>
   (child_z tm a = child_z tm b \<and> child_y tm a < child_y tm b \<longrightarrow>
      (\<exists>v. compareChildOrder tm a b = Some v \<and> v < 0)) \<and>
   (child_z tm a = child_z tm b \<and> child_y tm a = child_y tm b \<and>
    child_spriteId a = Some i \<and> child_spriteId b = Some j \<and> i < j \<longrightarrow>
      (\<exists>v. compareChildOrder tm a b = Some v \<and> v < 0))"
    by (simp add: compareChildOrder_def)
  moreover have "children (sortChildren (t\<lparr> children := xs \<rparr>)) =
      sortWith (compareChildOrder t) xs" for t xs
  proof -
    have "compareChildOrder (t\<lparr> children := xs \<rparr>) = compareChildOrder t"
    proof (intro ext)
      fix p q
      have "child_z (t\<lparr> children := xs \<rparr>) c = child_z t c \<and>
          child_y (t\<lparr> children := xs \<rparr>) c = child_y t c" for c
        by (cases c) (simp_all add: layerOf_def split: layer_id.splits)
      then show "compareChildOrder (t\<lparr> children := xs \<rparr>) p q = compareChildOrder t p q"
        by (simp add: compareChildOrder_def)
    qed
    then show ?thesis
      by (simp add: sortChildren_def)
  qed
  ultimately show ?thesis
    using keys scenario sorted_sortWith [of cs tm] mset_sortWith [of "compareChildOrder tm" cs]
    by (simp del: insert_iff)
qed

theorem child_order_witness:
  "child_z deepWaterMap (Drawable 0 5 (Some 7)) = child_z deepWaterMap (Drawable 0 5 (Some 9)) \<and>
   child_y deepWaterMap (Drawable 0 5 (Some 7)) = child_y deepWaterMap (Drawable 0 5 (Some 9)) \<and>
   compareChildOrder deepWaterMap (Drawable 0 5 (Some 7)) (Drawable 0 5 (Some 9)) = Some (- 2) \<and>
   sortWith (compareChildOrder deepWaterMap)
     [Drawable 4 1 (Some 1), Drawable 0 10 (Some 2), Drawable 0 5 (Some 3)] =
     [Drawable 0 5 (Some 3), Drawable 0 10 (Some 2), Drawable 4 1 (Some 1)] \<and>
   sorted (map (childKey deepWaterMap)
     (sortWith (compareChildOrder deepWaterMap)
        [Drawable 4 1 (Some 1), Drawable 0 10 (Some 2), Drawable 0 5 (Some 3)]))"
  using child_order [of deepWaterMap "Drawable 0 5 (Some 7)" "Drawable 0 5 (Some 9)" 7 9
      "[Drawable 4 1 (Some 1), Drawable 0 10 (Some 2), Drawable 0 5 (Some 3)]" 1 "Some 1"
      "Some 2" "Some 3"]
  by (simp add: compareChildOrder_def childKey_def)

section \<open>Repainting\<close>

subsection \<open>The calls made on the layers\<close>

lemma calls_emit_lower:
  "calls (lowerLayer (emit rs tm)) = calls (lowerLayer tm) @ map AddRect (rectsFor Lower rs)"
proof (induction rs arbitrary: tm)
  case Nil
  then show ?case by (simp add: rectsFor_def)
next
  case (Cons c rs)
  obtain l r where c: "c = (l, r)" by (cases c)
  show ?case
    using Cons [of "addRect l r tm"] by (cases l) (simp_all add: c rectsFor_def)
qed

lemma calls_emit_upper:
  "calls (upperLayer (emit rs tm)) = calls (upperLayer tm) @ map AddRect (rectsFor Upper rs)"
proof (induction rs arbitrary: tm)
  case Nil
  then show ?case by (simp add: rectsFor_def)
next
  case (Cons c rs)
  obtain l r where c: "c = (l, r)" by (cases c)
  show ?case
    using Cons [of "addRect l r tm"] by (cases l) (simp_all add: c rectsFor_def)
qed

lemma emit_fields:
  "needsRepaint (emit rs tm) = needsRepaint tm \<and>
   lastAnimationFrame (emit rs tm) = lastAnimationFrame tm \<and>
   lastStartX (emit rs tm) = lastStartX tm \<and>
   lastStartY (emit rs tm) = lastStartY tm \<and>
   animationFrame (emit rs tm) = animationFrame tm \<and>
   origin_x (emit rs tm) = origin_x tm \<and>
   origin_y (emit rs tm) = origin_y tm"
proof (induction rs arbitrary: tm)
  case Nil
  then show ?case by simp
next
  case (Cons c rs)
  obtain l r where c: "c = (l, r)" by (cases c)
  show ?case
    using Cons [of "addRect l r tm"] by (cases l) (simp_all add: c)
qed

lemma layer_contents_adds: "layer_contents (map AddRect rs) = rs"
  by (induction rs) auto

lemma layer_contents_after_clear: "layer_contents (cs @ Clear # map AddRect rs) = rs"
proof (induction cs)
  case Nil
  then show ?case by (simp add: layer_contents_adds)
next
  case (Cons c cs)
  then show ?case by (cases c) simp_all
qed

lemma sortChildren_fields:
  "lowerLayer (sortChildren tm) = lowerLayer tm \<and>
   upperLayer (sortChildren tm) = upperLayer tm \<and>
   needsRepaint (sortChildren tm) = needsRepaint tm \<and>
   lastAnimationFrame (sortChildren tm) = lastAnimationFrame tm \<and>
   lastStartX (sortChildren tm) = lastStartX tm \<and>
   lastStartY (sortChildren tm) = lastStartY tm \<and>
   animationFrame (sortChildren tm) = animationFrame tm \<and>
   origin_x (sortChildren tm) = origin_x tm \<and>
   origin_y (sortChildren tm) = origin_y tm"
  by (simp add: sortChildren_def)

subsection \<open>What the expansion reads\<close>

lemma sameMap_read: "sameMap a b \<Longrightarrow> readMapData a = readMapData b"
  by (intro ext) (simp add: sameMap_def readMapData_def Let_def cong: option.case_cong)

lemma sameMap_table: "sameMap a b \<Longrightarrow> isTableTile a = isTableTile b"
  by (intro ext) (simp add: sameMap_def isTableTile_def)

lemma sameMap_higher: "sameMap a b \<Longrightarrow> isHigherTile a = isHigherTile b"
  by (intro ext) (simp add: sameMap_def isHigherTile_def)

lemma sameMap_source: "sameMap a b \<Longrightarrow> autotileSource a = autotileSource b"
proof (intro ext)
  fix t
  assume s: "sameMap a b"
  then have "animationFrame a = animationFrame b"
    by (simp add: sameMap_def)
  then show "autotileSource a t = autotileSource b t"
    by (simp add: autotileSource_def sameMap_table [OF s] Let_def cong: if_cong)
qed

lemma sameMap_addTile: "sameMap a b \<Longrightarrow> addTile a = addTile b"
  by (intro ext) (simp add: addTile_def addAutotile_def sameMap_source cong: if_cong)

lemma sameMap_addSpotTile: "sameMap a b \<Longrightarrow> addSpotTile a = addSpotTile b"
  by (intro ext) (simp add: addSpotTile_def sameMap_addTile sameMap_higher cong: if_cong)

lemma addTableEdge_any: "addTableEdge a = addTableEdge b"
  by (intro ext) (simp add: addTableEdge_def)

lemma sameMap_addSpot: "sameMap a b \<Longrightarrow> addSpot a = addSpot b"
  by (intro ext)
    (simp add: addSpot_def sameMap_read sameMap_table sameMap_addSpotTile sameMap_addTile
      addTableEdge_any [of a b] isOverpassPosition_def Let_def cong: if_cong)

lemma sameMap_loop: "sameMap a b \<Longrightarrow> addAllSpotsLoop a = addAllSpotsLoop b"
proof (intro ext)
  fix sx sy
  assume s: "sameMap a b"
  then have "tm_width a = tm_width b" and "tm_height a = tm_height b"
    by (simp_all add: sameMap_def)
  then show "addAllSpotsLoop a sx sy = addAllSpotsLoop b sx sy"
    by (simp add: addAllSpotsLoop_def sameMap_addSpot [OF s])
qed

subsection \<open>The two branches of \<open>updateTransform\<close>\<close>

lemma updateTransform_unfold:
  fixes tm :: tilemap
  defines "startX \<equiv> \<lfloor>rat_of_int (\<lceil>origin_x tm\<rceil> - margin) / rat_of_int tileWidth\<rfloor>"
    and "startY \<equiv> \<lfloor>rat_of_int (\<lceil>origin_y tm\<rceil> - margin) / rat_of_int tileHeight\<rfloor>"
  shows "updateTransform tm =
    (if needsRepaint tm \<or> lastAnimationFrame tm \<noteq> animationFrame tm \<or>
        lastStartX tm \<noteq> Some startX \<or> lastStartY tm \<noteq> Some startY
     then (case addAllSpotsLoop tm startX startY of
             Inl e \<Rightarrow> Inl e
           | Inr rs \<Rightarrow>
               Inr (sortChildren
                 ((emit rs (commitState tm startX startY))\<lparr> needsRepaint := False \<rparr>)))
     else Inr (sortChildren (tm\<lparr>
            lowerLayer := (lowerLayer tm)\<lparr> layer_x := startX * tileWidth - \<lceil>origin_x tm\<rceil>,
                                           layer_y := startY * tileHeight - \<lceil>origin_y tm\<rceil> \<rparr>,
            upperLayer := (upperLayer tm)\<lparr> layer_x := startX * tileWidth - \<lceil>origin_x tm\<rceil>,
                                           layer_y := startY * tileHeight - \<lceil>origin_y tm\<rceil> \<rparr> \<rparr>)))"
proof -
  let ?tm1 = "tm\<lparr>
            lowerLayer := (lowerLayer tm)\<lparr> layer_x := startX * tileWidth - \<lceil>origin_x tm\<rceil>,
                                           layer_y := startY * tileHeight - \<lceil>origin_y tm\<rceil> \<rparr>,
            upperLayer := (upperLayer tm)\<lparr> layer_x := startX * tileWidth - \<lceil>origin_x tm\<rceil>,
                                           layer_y := startY * tileHeight - \<lceil>origin_y tm\<rceil> \<rparr> \<rparr>"
  let ?tm2 = "?tm1\<lparr> lastAnimationFrame := animationFrame tm, lastStartX := Some startX,
    lastStartY := Some startY \<rparr>"
  have "sameMap ?tm2 tm"
    by (simp add: sameMap_def)
  then have loop: "addAllSpotsLoop ?tm2 startX startY = addAllSpotsLoop tm startX startY"
    by (simp add: sameMap_loop)
  have "addAllSpots startX startY ?tm2 =
    (case addAllSpotsLoop tm startX startY of
       Inl e \<Rightarrow> Inl e
     | Inr rs \<Rightarrow> Inr (emit rs (commitState tm startX startY)))"
    unfolding addAllSpots_def Let_def loop by (simp add: commitState_def split: sum.splits)
  then show ?thesis
    unfolding updateTransform_def Let_def startX_def [symmetric] startY_def [symmetric]
    by (simp split: sum.splits)
qed

lemma updateTransform_due:
  fixes tm :: tilemap
  defines "startX \<equiv> \<lfloor>rat_of_int (\<lceil>origin_x tm\<rceil> - margin) / rat_of_int tileWidth\<rfloor>"
    and "startY \<equiv> \<lfloor>rat_of_int (\<lceil>origin_y tm\<rceil> - margin) / rat_of_int tileHeight\<rfloor>"
  assumes due: "needsRepaint tm \<or> lastAnimationFrame tm \<noteq> animationFrame tm \<or>
        lastStartX tm \<noteq> Some startX \<or> lastStartY tm \<noteq> Some startY"
  shows "case addAllSpotsLoop tm startX startY of
           Inl e \<Rightarrow> updateTransform tm = Inl e
         | Inr rs \<Rightarrow>
             (\<exists>tm'. updateTransform tm = Inr tm' \<and>
                calls (lowerLayer tm') =
                  calls (lowerLayer tm) @ Clear # map AddRect (rectsFor Lower rs) \<and>
                calls (upperLayer tm') =
                  calls (upperLayer tm) @ Clear # map AddRect (rectsFor Upper rs) \<and>
                \<not> needsRepaint tm' \<and>
                lastAnimationFrame tm' = animationFrame tm \<and>
                lastStartX tm' = Some startX \<and> lastStartY tm' = Some startY \<and>
                animationFrame tm' = animationFrame tm \<and>
                origin_x tm' = origin_x tm \<and> origin_y tm' = origin_y tm)"
proof (cases "addAllSpotsLoop tm startX startY")
  case (Inl e)
  then show ?thesis
    using due updateTransform_unfold [of tm]
    unfolding startX_def startY_def by simp
next
  case (Inr rs)
  let ?tm' = "sortChildren ((emit rs (commitState tm startX startY))\<lparr> needsRepaint := False \<rparr>)"
  have run: "updateTransform tm = Inr ?tm'"
    using due Inr updateTransform_unfold [of tm]
    unfolding startX_def startY_def by simp
  have lower: "calls (lowerLayer ?tm') =
      calls (lowerLayer tm) @ Clear # map AddRect (rectsFor Lower rs)"
    by (simp add: sortChildren_fields calls_emit_lower commitState_def clear_def)
  have upper: "calls (upperLayer ?tm') =
      calls (upperLayer tm) @ Clear # map AddRect (rectsFor Upper rs)"
    by (simp add: sortChildren_fields calls_emit_upper commitState_def clear_def)
  have rest: "\<not> needsRepaint ?tm' \<and> lastAnimationFrame ?tm' = animationFrame tm \<and>
      lastStartX ?tm' = Some startX \<and> lastStartY ?tm' = Some startY \<and>
      animationFrame ?tm' = animationFrame tm \<and>
      origin_x ?tm' = origin_x tm \<and> origin_y ?tm' = origin_y tm"
    by (simp add: sortChildren_fields emit_fields commitState_def)
  show ?thesis
    using Inr run lower upper rest by simp
qed

lemma updateTransform_idle:
  fixes tm :: tilemap
  defines "startX \<equiv> \<lfloor>rat_of_int (\<lceil>origin_x tm\<rceil> - margin) / rat_of_int tileWidth\<rfloor>"
    and "startY \<equiv> \<lfloor>rat_of_int (\<lceil>origin_y tm\<rceil> - margin) / rat_of_int tileHeight\<rfloor>"
  assumes idle: "\<not> (needsRepaint tm \<or> lastAnimationFrame tm \<noteq> animationFrame tm \<or>
        lastStartX tm \<noteq> Some startX \<or> lastStartY tm \<noteq> Some startY)"
  shows "\<exists>tm'. updateTransform tm = Inr tm' \<and>
           calls (lowerLayer tm') = calls (lowerLayer tm) \<and>
           calls (upperLayer tm') = calls (upperLayer tm) \<and>
           \<not> needsRepaint tm' \<and>
           lastAnimationFrame tm' = animationFrame tm \<and>
           lastStartX tm' = Some startX \<and> lastStartY tm' = Some startY \<and>
           animationFrame tm' = animationFrame tm \<and>
           origin_x tm' = origin_x tm \<and> origin_y tm' = origin_y tm"
  using idle updateTransform_unfold [of tm]
  unfolding startX_def startY_def by (simp add: sortChildren_fields)

section \<open>Expanding a spot\<close>

lemma deepWaterMap_fields:
  "mapData deepWaterMap = Some [2048, 0, 0, 0, 0] \<and> mapWidth deepWaterMap = 1 \<and>
   mapHeight deepWaterMap = 1 \<and> \<not> horizontalWrap deepWaterMap \<and> \<not> verticalWrap deepWaterMap \<and>
   flags deepWaterMap = [] \<and> animationFrame deepWaterMap = Some 0 \<and>
   tm_width deepWaterMap = 8 \<and> tm_height deepWaterMap = 8 \<and>
   origin_x deepWaterMap = 0 \<and> origin_y deepWaterMap = 0 \<and> needsRepaint deepWaterMap \<and>
   calls (lowerLayer deepWaterMap) = [] \<and> calls (upperLayer deepWaterMap) = []"
  by (simp add: deepWaterMap_def update_def setData_def initialize_def)

lemma deepWaterMap_read:
  "readMapData deepWaterMap x y z = (if x = 0 \<and> y = 0 \<and> z = 0 then 2048 else 0)"
proof -
  have cell: "(case array_get [2048, 0, 0, 0, 0 :: int] z of None \<Rightarrow> 0 | Some v \<Rightarrow> v) =
      (if z = 0 then 2048 else 0)"
  proof (cases "0 \<le> z \<and> z < 5")
    case True
    then have "z = 0 \<or> z = 1 \<or> z = 2 \<or> z = 3 \<or> z = 4"
      by arith
    then show ?thesis
      by (auto simp add: array_get_def)
  next
    case False
    then show ?thesis
      by (auto simp add: array_get_def)
  qed
  have "readMapData deepWaterMap x y z =
      (if x = 0 \<and> y = 0
       then (case array_get [2048, 0, 0, 0, 0 :: int] z of None \<Rightarrow> 0 | Some v \<Rightarrow> v) else 0)"
    by (auto simp add: readMapData_def deepWaterMap_fields Let_def)
  then show ?thesis
    unfolding cell by auto
qed

lemma addTile_zero: "addTile tm l 0 dx dy = Inr []"
  by (simp add: addTile_def isVisibleTile_def)

lemma addSpotTile_zero: "addSpotTile tm 0 dx dy = Inr []"
  by (simp add: addSpotTile_def addTile_zero)

lemma addShadow_zero: "addShadow l 0 dx dy = []"
  by (simp add: addShadow_def)

lemma isTableTile_zero: "\<not> isTableTile tm 0"
  by (simp add: isTableTile_def isTileA2_def TILE_ID_A2_def)

lemma deep_water_tile:
  assumes noflags: "flags tm = []" and frame: "animationFrame tm = Some 0"
  shows "addSpotTile tm TILE_ID_A1 dx dy =
    Inr [(Lower, Rect 0 (Some 48) (Some 96) dx dy 24 24),
         (Lower, Rect 0 (Some 24) (Some 96) (dx + 24) dy 24 24),
         (Lower, Rect 0 (Some 48) (Some 72) dx (dy + 24) 24 24),
         (Lower, Rect 0 (Some 24) (Some 72) (dx + 24) (dy + 24) 24 24)]"
proof -
  have kind: "getAutotileKind TILE_ID_A1 = 0" and shape: "getAutotileShape TILE_ID_A1 = 0"
    by (simp_all add: getAutotileKind_def getAutotileShape_def js_rem_def TILE_ID_A1_def)
  have src: "autotileSource tm TILE_ID_A1 = (0, Some 0, Some 0, FLOOR_AUTOTILE_TABLE, False)"
    unfolding autotileSource_def kind Let_def
    by (simp add: frame waterSurfaceIndex_def js_rem_def array_get_def isTileA1_def
        TILE_ID_A1_def TILE_ID_A2_def)
  have tbl: "tableOf tm TILE_ID_A1 = FLOOR_AUTOTILE_TABLE"
    by (simp add: tableOf_def src)
  have entry: "array_get FLOOR_AUTOTILE_TABLE 0 = Some [(2, 4), (1, 4), (2, 3), (1, 3)]"
    by (simp add: array_get_def FLOOR_AUTOTILE_TABLE_def)
  have quads: "concat (map (\<lambda>i. autotileQuadrant Lower 0 (Some 0) (Some 0) False dx dy (int i)
        ([(2, 4), (1, 4), (2, 3), (1, 3)] ! i)) [0..<4]) =
      [(Lower, Rect 0 (Some 48) (Some 96) dx dy 24 24),
       (Lower, Rect 0 (Some 24) (Some 96) (dx + 24) dy 24 24),
       (Lower, Rect 0 (Some 48) (Some 72) dx (dy + 24) 24 24),
       (Lower, Rect 0 (Some 24) (Some 72) (dx + 24) (dy + 24) 24 24)]"
    by (simp add: autotileQuadrant_def tileWidth_def tileHeight_def js_rem_def upt_rec
        numeral_eq_Suc Let_def)
  have "addAutotile tm Lower TILE_ID_A1 dx dy =
      Inr (concat (map (\<lambda>i. autotileQuadrant Lower 0 (Some 0) (Some 0) False dx dy (int i)
        ([(2, 4), (1, 4), (2, 3), (1, 3)] ! i)) [0..<4]))"
    unfolding addAutotile_result tbl shape entry src by simp
  then have "addAutotile tm Lower TILE_ID_A1 dx dy =
      Inr [(Lower, Rect 0 (Some 48) (Some 96) dx dy 24 24),
       (Lower, Rect 0 (Some 24) (Some 96) (dx + 24) dy 24 24),
       (Lower, Rect 0 (Some 48) (Some 72) dx (dy + 24) 24 24),
       (Lower, Rect 0 (Some 24) (Some 72) (dx + 24) (dy + 24) 24 24)]"
    unfolding quads .
  then show ?thesis
    by (simp add: addSpotTile_def isHigherTile_def noflags array_get_def addTile_def
        isVisibleTile_def isAutotile_def TILE_ID_A1_def TILE_ID_MAX_def)
qed

lemma deepWaterMap_spot:
  "addSpot deepWaterMap (- 1) (- 1) x y =
     (if x = 1 \<and> y = 1 then Inr [(Lower, Rect 0 (Some 48) (Some 96) 48 48 24 24),
    (Lower, Rect 0 (Some 24) (Some 96) 72 48 24 24),
    (Lower, Rect 0 (Some 48) (Some 72) 48 72 24 24),
    (Lower, Rect 0 (Some 24) (Some 72) 72 72 24 24)] else Inr [])"
  using deep_water_tile [of deepWaterMap "48" "48"]
  by (simp add: addSpot_def deepWaterMap_read deepWaterMap_fields addSpotTile_zero addShadow_zero isTableTile_zero
    isOverpassPosition_def tileWidth_def tileHeight_def TILE_ID_A1_def)

lemma deepWaterMap_loop:
  "addAllSpotsLoop deepWaterMap (- 1) (- 1) = Inr [(Lower, Rect 0 (Some 48) (Some 96) 48 48 24 24),
    (Lower, Rect 0 (Some 24) (Some 96) 72 48 24 24),
    (Lower, Rect 0 (Some 48) (Some 72) 48 72 24 24),
    (Lower, Rect 0 (Some 24) (Some 72) 72 72 24 24)]"
  by (simp add: addAllSpotsLoop_def deepWaterMap_fields margin_def tileWidth_def tileHeight_def upto_0_1 deepWaterMap_spot)


lemma thenE_Inr_prefix: "thenE (Inr a) b = Inr rs \<Longrightarrow> \<exists>rest. rs = a @ rest"
  by (cases b) auto

lemma isTableTile_no_flags: "flags tm = [] \<Longrightarrow> \<not> isTableTile tm t"
  by (simp add: isTableTile_def array_get_def)

text \<open>
  C1: with no flags and the animation frame 0 (so \<open>waterSurfaceIndex = 0\<close>, \<open>bx = 0\<close>,
  \<open>by = 0\<close>), a spot whose plane 0 holds \<open>TILE_ID_A1\<close> (2048, kind 0, shape 0) gets
  for that tile exactly 4 quarter rectangles in the lower layer, their sources computed
  from the shape-0 entry \<open>[(2,4),(1,4),(2,3),(1,3)]\<close> of the floor table; they are the
  first commands of the spot, and all of them when the other planes of the cell are
  empty.
\<close>

theorem deep_water_spot:
  fixes tm :: tilemap and startX startY x y :: int
  defines "dx \<equiv> x * tileWidth" and "dy \<equiv> y * tileHeight"
  defines "quarters \<equiv>
    [(Lower, Rect 0 (Some 48) (Some 96) dx dy 24 24),
     (Lower, Rect 0 (Some 24) (Some 96) (dx + 24) dy 24 24),
     (Lower, Rect 0 (Some 48) (Some 72) dx (dy + 24) 24 24),
     (Lower, Rect 0 (Some 24) (Some 72) (dx + 24) (dy + 24) 24 24)]"
  assumes noflags: "flags tm = []"
    and frame: "animationFrame tm = Some 0"
    and water: "readMapData tm (startX + x) (startY + y) 0 = TILE_ID_A1"
  shows
    "TILE_ID_A1 = 2048 \<and> getAutotileKind TILE_ID_A1 = 0 \<and> getAutotileShape TILE_ID_A1 = 0 \<and>
     waterSurfaceIndex (animationFrame tm) = Some 0 \<and>
     autotileSource tm TILE_ID_A1 = (0, Some (0 * 2), Some 0, FLOOR_AUTOTILE_TABLE, False) \<and>
     array_get FLOOR_AUTOTILE_TABLE 0 = Some [(2, 4), (1, 4), (2, 3), (1, 3)] \<and>
     quarters =
       map (\<lambda>(i, q). (Lower, Rect 0 (Some ((0 * 2 + fst q) * 24)) (Some ((0 * 2 + snd q) * 24))
                       (dx + i mod 2 * 24) (dy + i div 2 * 24) 24 24))
         (zip [0, 1, 2, 3] [(2, 4), (1, 4), (2, 3), (1, 3)]) \<and>
     addSpotTile tm TILE_ID_A1 dx dy = Inr quarters \<and>
     (\<forall>rs. addSpot tm startX startY x y = Inr rs \<longrightarrow> (\<exists>rest. rs = quarters @ rest)) \<and>
     (readMapData tm (startX + x) (startY + y) 1 = 0 \<and>
      readMapData tm (startX + x) (startY + y) 2 = 0 \<and>
      readMapData tm (startX + x) (startY + y) 3 = 0 \<and>
      readMapData tm (startX + x) (startY + y) 4 = 0 \<longrightarrow>
        addSpot tm startX startY x y = Inr quarters \<and>
        rectsFor Lower quarters = map snd quarters \<and>
        length (rectsFor Lower quarters) = 4 \<and>
        rectsFor Upper quarters = [])"
proof -
  have ids: "TILE_ID_A1 = 2048 \<and> getAutotileKind TILE_ID_A1 = 0 \<and> getAutotileShape TILE_ID_A1 = 0"
    by (simp add: TILE_ID_A1_def getAutotileKind_def getAutotileShape_def js_rem_def)
  have wsi: "waterSurfaceIndex (animationFrame tm) = Some 0"
    by (simp add: frame waterSurfaceIndex_def js_rem_def array_get_def)
  have src: "autotileSource tm TILE_ID_A1 = (0, Some (0 * 2), Some 0, FLOOR_AUTOTILE_TABLE, False)"
    using ids by (simp add: autotileSource_def wsi isTileA1_def TILE_ID_A2_def Let_def)
  have entry: "array_get FLOOR_AUTOTILE_TABLE 0 = Some [(2, 4), (1, 4), (2, 3), (1, 3)]"
    by (simp add: array_get_def FLOOR_AUTOTILE_TABLE_def)
  have tile: "addSpotTile tm TILE_ID_A1 dx dy = Inr quarters"
    unfolding quarters_def using noflags frame by (rule deep_water_tile)
  have formula: "quarters =
       map (\<lambda>(i, q). (Lower, Rect 0 (Some ((0 * 2 + fst q) * 24)) (Some ((0 * 2 + snd q) * 24))
                       (dx + i mod 2 * 24) (dy + i div 2 * 24) 24 24))
         (zip [0, 1, 2, 3] [(2, 4), (1, 4), (2, 3), (1, 3)])"
    by (simp add: quarters_def)
  have spot: "addSpot tm startX startY x y =
      thenE (Inr quarters)
        (thenE (addSpotTile tm (readMapData tm (startX + x) (startY + y) 1) dx dy)
        (thenE (Inr (addShadow Lower (readMapData tm (startX + x) (startY + y) 4) dx dy))
        (thenE (Inr [])
        (thenE (addSpotTile tm (readMapData tm (startX + x) (startY + y) 2) dx dy)
               (addSpotTile tm (readMapData tm (startX + x) (startY + y) 3) dx dy)))))"
    unfolding addSpot_def Let_def water dx_def [symmetric] dy_def [symmetric] tile
    by (simp add: isTableTile_no_flags [OF noflags] isOverpassPosition_def)
  have prefix: "\<exists>rest. rs = quarters @ rest" if "addSpot tm startX startY x y = Inr rs" for rs
    using that unfolding spot by (rule thenE_Inr_prefix)
  have alone: "addSpot tm startX startY x y = Inr quarters"
    if "readMapData tm (startX + x) (startY + y) 1 = 0"
      and "readMapData tm (startX + x) (startY + y) 2 = 0"
      and "readMapData tm (startX + x) (startY + y) 3 = 0"
      and "readMapData tm (startX + x) (startY + y) 4 = 0"
    unfolding spot that
    by (simp add: addSpotTile_def addTile_def isVisibleTile_def addShadow_def)
  have layers: "rectsFor Lower quarters = map snd quarters \<and>
        length (rectsFor Lower quarters) = 4 \<and> rectsFor Upper quarters = []"
    by (simp add: rectsFor_def quarters_def)
  show ?thesis
    using ids wsi src entry formula tile prefix alone layers by blast
qed

theorem deep_water_spot_witness:
  "flags deepWaterMap = [] \<and> animationFrame deepWaterMap = Some 0 \<and>
   readMapData deepWaterMap (- 1 + 1) (- 1 + 1) 0 = TILE_ID_A1 \<and>
   addSpot deepWaterMap (- 1) (- 1) 1 1 =
     Inr [(Lower, Rect 0 (Some 48) (Some 96) 48 48 24 24),
          (Lower, Rect 0 (Some 24) (Some 96) 72 48 24 24),
          (Lower, Rect 0 (Some 48) (Some 72) 48 72 24 24),
          (Lower, Rect 0 (Some 24) (Some 72) 72 72 24 24)]"
  using deep_water_spot [of deepWaterMap "- 1" 1 "- 1" 1]
  by (simp add: deepWaterMap_fields deepWaterMap_read TILE_ID_A1_def tileWidth_def tileHeight_def)


lemma addTableEdge_table:
  assumes "isTileA2 t"
  shows "addTableEdge tm layer t dx dy =
     Inr (tableEdgeQuadrant layer (js_rem (getAutotileKind t) 8 * 2)
            ((getAutotileKind t div 8 - 2) * 3) dx dy 0
            (FLOOR_AUTOTILE_TABLE ! nat (getAutotileShape t) ! 2) @
          tableEdgeQuadrant layer (js_rem (getAutotileKind t) 8 * 2)
            ((getAutotileKind t div 8 - 2) * 3) dx dy 1
            (FLOOR_AUTOTILE_TABLE ! nat (getAutotileShape t) ! 3))"
proof -
  have rng: "0 \<le> getAutotileShape t \<and> getAutotileShape t < 48"
    using assms shape_range [of t] by (simp add: bank_defs tile_id_defs)
  then have "nat (getAutotileShape t) < length FLOOR_AUTOTILE_TABLE"
    unfolding floor_table_length by linarith
  then have "FLOOR_AUTOTILE_TABLE ! nat (getAutotileShape t) \<in> set FLOOR_AUTOTILE_TABLE"
    by (rule nth_mem)
  then have len: "length (FLOOR_AUTOTILE_TABLE ! nat (getAutotileShape t)) = 4"
    using floor_table_entries by blast
  show ?thesis
    using assms rng
    by (simp add: addTableEdge_def Let_def array_get_def floor_table_length
        forQuadrants_edge [OF len])
qed

lemma rectsFor_append: "rectsFor l (a @ b) = rectsFor l a @ rectsFor l b"
  by (simp add: rectsFor_def)

text \<open>
  C8: in a spot where the plane-1 tile of the row above is a table tile, the spot's own
  plane-1 tile is not, and its plane-0 tile is not a shadowing tile, \<open>_addTableEdge\<close>
  adds exactly 2 half-height rectangles (from the pairs 2 and 3 of the table tile's
  floor-table entry, the source moved down by half a quadrant) to the lower layer, once,
  between the commands of the planes 0, 1 and the shadow and those of the planes 2 and
  3; in every other spot nothing is added there.
\<close>

theorem table_edge_stitching:
  fixes tm :: tilemap and startX startY x y :: int
  defines "mx \<equiv> startX + x" and "my \<equiv> startY + y"
    and "dx \<equiv> x * tileWidth" and "dy \<equiv> y * tileHeight"
  defines "tileId0 \<equiv> readMapData tm mx my 0"
    and "tileId1 \<equiv> readMapData tm mx my 1"
    and "upperTileId1 \<equiv> readMapData tm mx (my - 1) 1"
  defines "ground \<equiv>
      thenE (addSpotTile tm tileId0 dx dy)
        (thenE (addSpotTile tm tileId1 dx dy)
          (Inr (addShadow Lower (readMapData tm mx my 4) dx dy)))"
    and "overlay \<equiv>
      thenE (addSpotTile tm (readMapData tm mx my 2) dx dy)
        (addSpotTile tm (readMapData tm mx my 3) dx dy)"
  defines "bx \<equiv> js_rem (getAutotileKind upperTileId1) 8 * 2"
    and "by1 \<equiv> (getAutotileKind upperTileId1 div 8 - 2) * 3"
    and "entry \<equiv> FLOOR_AUTOTILE_TABLE ! nat (getAutotileShape upperTileId1)"
  defines "edge \<equiv>
      [(Lower, Rect 1 (Some ((bx * 2 + fst (entry ! 2)) * 24))
                 (Some ((by1 * 2 + snd (entry ! 2)) * 24 + 12)) dx dy 24 12),
       (Lower, Rect 1 (Some ((bx * 2 + fst (entry ! 3)) * 24))
                 (Some ((by1 * 2 + snd (entry ! 3)) * 24 + 12)) (dx + 24) dy 24 12)]"
  shows
    "(isTableTile tm upperTileId1 \<and> \<not> isTableTile tm tileId1 \<and> \<not> isShadowingTile tileId0 \<longrightarrow>
        addTableEdge tm Lower upperTileId1 dx dy = Inr edge \<and>
        addSpot tm startX startY x y = thenE ground (thenE (Inr edge) overlay) \<and>
        (\<forall>g v. ground = Inr g \<and> overlay = Inr v \<longrightarrow>
           addSpot tm startX startY x y = Inr (g @ edge @ v) \<and>
           rectsFor Lower (g @ edge @ v) = rectsFor Lower g @ map snd edge @ rectsFor Lower v \<and>
           length (rectsFor Lower (g @ edge @ v)) = length (rectsFor Lower (g @ v)) + 2 \<and>
           rectsFor Upper (g @ edge @ v) = rectsFor Upper (g @ v))) \<and>
     (\<not> (isTableTile tm upperTileId1 \<and> \<not> isTableTile tm tileId1 \<and> \<not> isShadowingTile tileId0) \<longrightarrow>
        addSpot tm startX startY x y = thenE ground overlay)"
proof -
  have spot: "addSpot tm startX startY x y =
      thenE ground
        (thenE
          (if isTableTile tm upperTileId1 \<and> \<not> isTableTile tm tileId1 then
             (if \<not> isShadowingTile tileId0
              then addTableEdge tm Lower upperTileId1 dx dy
              else Inr [])
           else Inr [])
          overlay)"
    unfolding addSpot_def Let_def ground_def overlay_def tileId0_def tileId1_def upperTileId1_def
      mx_def my_def dx_def dy_def
    by (simp add: isOverpassPosition_def thenE_assoc)
  have empty_first: "thenE (Inr []) r = r" for r :: "error + emitted"
    by (cases r) simp_all
  have stitch: "addTableEdge tm Lower upperTileId1 dx dy = Inr edge"
    if "isTableTile tm upperTileId1"
  proof -
    have "isTileA2 upperTileId1"
      using that by (simp add: isTableTile_def)
    then show ?thesis
      unfolding edge_def bx_def by1_def entry_def
      by (simp add: addTableEdge_table tableEdgeQuadrant_def Let_def tileWidth_def
          tileHeight_def js_rem_def)
  qed
  have split: "rectsFor Lower (g @ edge @ v) = rectsFor Lower g @ map snd edge @ rectsFor Lower v \<and>
      length (rectsFor Lower (g @ edge @ v)) = length (rectsFor Lower (g @ v)) + 2 \<and>
      rectsFor Upper (g @ edge @ v) = rectsFor Upper (g @ v)" for g v
    by (simp add: rectsFor_def edge_def)
  have yes: "addTableEdge tm Lower upperTileId1 dx dy = Inr edge \<and>
        addSpot tm startX startY x y = thenE ground (thenE (Inr edge) overlay) \<and>
        (\<forall>g v. ground = Inr g \<and> overlay = Inr v \<longrightarrow>
           addSpot tm startX startY x y = Inr (g @ edge @ v) \<and>
           rectsFor Lower (g @ edge @ v) = rectsFor Lower g @ map snd edge @ rectsFor Lower v \<and>
           length (rectsFor Lower (g @ edge @ v)) = length (rectsFor Lower (g @ v)) + 2 \<and>
           rectsFor Upper (g @ edge @ v) = rectsFor Upper (g @ v))"
    if c: "isTableTile tm upperTileId1 \<and> \<not> isTableTile tm tileId1 \<and> \<not> isShadowingTile tileId0"
  proof -
    have s: "addSpot tm startX startY x y = thenE ground (thenE (Inr edge) overlay)"
      using c stitch by (simp add: spot)
    have "addSpot tm startX startY x y = Inr (g @ edge @ v)"
      if "ground = Inr g" and "overlay = Inr v" for g v
      using that by (simp add: s)
    then show ?thesis
      using c stitch s split by blast
  qed
  have no: "addSpot tm startX startY x y = thenE ground overlay"
    if "\<not> (isTableTile tm upperTileId1 \<and> \<not> isTableTile tm tileId1 \<and> \<not> isShadowingTile tileId0)"
    using that by (auto simp add: spot empty_first)
  show ?thesis
    using yes no by blast
qed

lemma tableMap_fields:
  "mapData tableMap = Some [0, 1, 2816, 0] \<and> mapWidth tableMap = 1 \<and>
   mapHeight tableMap = 2 \<and> \<not> horizontalWrap tableMap \<and> \<not> verticalWrap tableMap \<and>
   flags tableMap = replicate 2816 0 @ [0x80] \<and> animationFrame tableMap = Some 0"
  by (simp add: tableMap_def update_def setData_def initialize_def)

lemma tableMap_reads:
  "readMapData tableMap 0 1 0 = 1 \<and> readMapData tableMap 0 1 1 = 0 \<and>
   readMapData tableMap 0 1 2 = 0 \<and> readMapData tableMap 0 1 3 = 0 \<and>
   readMapData tableMap 0 1 4 = 0 \<and> readMapData tableMap 0 0 1 = 2816"
  by (simp add: readMapData_def tableMap_fields array_get_def)

lemma tableMap_flags:
  "isTableTile tableMap 2816 \<and> \<not> isTableTile tableMap 0 \<and> \<not> isHigherTile tableMap 1 \<and>
   \<not> isHigherTile tableMap 0"
  by (simp add: isTableTile_def isHigherTile_def tableMap_fields array_get_def nth_append
      isTileA2_def TILE_ID_A2_def TILE_ID_A3_def)

theorem table_edge_stitching_witness:
  "isTableTile tableMap (readMapData tableMap 0 0 1) \<and>
   \<not> isTableTile tableMap (readMapData tableMap 0 1 1) \<and>
   \<not> isShadowingTile (readMapData tableMap 0 1 0) \<and>
   addTableEdge tableMap Lower 2816 0 48 =
     Inr [(Lower, Rect 1 (Some 48) (Some 84) 0 48 24 12),
          (Lower, Rect 1 (Some 24) (Some 84) 24 48 24 12)] \<and>
   addSpot tableMap 0 0 0 1 =
     Inr [(Lower, Rect 5 (Some 48) (Some 0) 0 48 48 48),
          (Lower, Rect 1 (Some 48) (Some 84) 0 48 24 12),
          (Lower, Rect 1 (Some 24) (Some 84) 24 48 24 12)]"
  using table_edge_stitching [of tableMap 0 0 0 1]
  by (simp add: tableMap_reads tableMap_flags isShadowingTile_def isTileA3_def isTileA4_def
      TILE_ID_A3_def TILE_ID_A4_def tileWidth_def tileHeight_def getAutotileKind_def
      getAutotileShape_def TILE_ID_A1_def js_rem_def FLOOR_AUTOTILE_TABLE_def
      addSpotTile_def addTile_def isVisibleTile_def isAutotile_def TILE_ID_MAX_def
      addNormalTile_def isTileA5_def TILE_ID_A5_def addShadow_def)

section \<open>Repaint memoization\<close>

section \<open>Repaint memoization\<close>

lemma sameMap_emit: "sameMap (emit rs tm) tm"
proof (induction rs arbitrary: tm)
  case Nil
  then show ?case by (simp add: sameMap_def)
next
  case (Cons c rs)
  obtain l r where c: "c = (l, r)" by (cases c)
  show ?case
    using Cons [of "addRect l r tm"] by (cases l) (simp_all add: c sameMap_def)
qed

lemma updateTransform_sameMap:
  assumes "updateTransform tm = Inr tm'"
  shows "sameMap tm' tm"
proof -
  have "sameMap (emit rs (commitState tm sx sy)) tm" for rs sx sy
    using sameMap_emit [of rs "commitState tm sx sy"]
    by (simp add: sameMap_def commitState_def)
  then show ?thesis
    using assms unfolding updateTransform_unfold [of tm]
    by (auto simp add: sameMap_def sortChildren_def split: if_splits sum.splits)
qed

lemma updateTransform_flagged:
  fixes tm t :: tilemap
  defines "startX \<equiv> \<lfloor>rat_of_int (\<lceil>origin_x tm\<rceil> - margin) / rat_of_int tileWidth\<rfloor>"
    and "startY \<equiv> \<lfloor>rat_of_int (\<lceil>origin_y tm\<rceil> - margin) / rat_of_int tileHeight\<rfloor>"
  assumes flag: "needsRepaint t"
    and same: "sameMap t tm"
    and origin: "origin_x t = origin_x tm" "origin_y t = origin_y tm"
  shows "case addAllSpotsLoop tm startX startY of
           Inl e \<Rightarrow> updateTransform t = Inl e
         | Inr rs \<Rightarrow>
             (\<exists>tm'. updateTransform t = Inr tm' \<and>
                calls (lowerLayer tm') =
                  calls (lowerLayer t) @ Clear # map AddRect (rectsFor Lower rs) \<and>
                calls (upperLayer tm') =
                  calls (upperLayer t) @ Clear # map AddRect (rectsFor Upper rs))"
proof -
  have loop: "addAllSpotsLoop t = addAllSpotsLoop tm"
    using same by (rule sameMap_loop)
  have due: "needsRepaint t \<or> lastAnimationFrame t \<noteq> animationFrame t \<or>
      lastStartX t \<noteq> Some \<lfloor>rat_of_int (\<lceil>origin_x t\<rceil> - margin) / rat_of_int tileWidth\<rfloor> \<or>
      lastStartY t \<noteq> Some \<lfloor>rat_of_int (\<lceil>origin_y t\<rceil> - margin) / rat_of_int tileHeight\<rfloor>"
    using flag by simp
  show ?thesis
    using updateTransform_due [OF due]
    unfolding loop origin startX_def startY_def
    by (cases "addAllSpotsLoop tm
        \<lfloor>rat_of_int (\<lceil>origin_x tm\<rceil> - margin) / rat_of_int tileWidth\<rfloor>
        \<lfloor>rat_of_int (\<lceil>origin_y tm\<rceil> - margin) / rat_of_int tileHeight\<rfloor>") auto
qed

text \<open>
  C5, amended: \<open>updateTransform\<close> repaints (clears both layers and adds the rectangles of
  the spots of the visible window) if and only if the repaint flag \<open>_needsRepaint\<close> is
  set, or the animation frame differs from the last committed one, or the start of the
  window differs from the last committed one; otherwise it makes no call on the layers.
  The flag is set by \<open>refresh\<close>, by the constructor, and by \<open>_updateBitmaps\<close> when a
  bitmap update is pending and every bitmap is ready (so by \<open>setBitmaps\<close> with loaded
  bitmaps); \<open>update\<close> and \<open>setData\<close> leave it, and an \<open>updateTransform\<close> that returns
  clears it. After a call that returned, a second call with the same origin and
  animation frame, and with the flag not set in between, makes no call on the layers:
  their contents stay as they are.
\<close>

theorem repaint_memoization:
  fixes tm :: tilemap
  defines "startX \<equiv> \<lfloor>rat_of_int (\<lceil>origin_x tm\<rceil> - margin) / rat_of_int tileWidth\<rfloor>"
    and "startY \<equiv> \<lfloor>rat_of_int (\<lceil>origin_y tm\<rceil> - margin) / rat_of_int tileHeight\<rfloor>"
  defines "due \<equiv> needsRepaint tm \<or> lastAnimationFrame tm \<noteq> animationFrame tm \<or>
        lastStartX tm \<noteq> Some startX \<or> lastStartY tm \<noteq> Some startY"
  shows
    "(due \<longrightarrow>
        (case addAllSpotsLoop tm startX startY of
           Inl e \<Rightarrow> updateTransform tm = Inl e
         | Inr rs \<Rightarrow>
             (\<exists>tm'. updateTransform tm = Inr tm' \<and>
                calls (lowerLayer tm') =
                  calls (lowerLayer tm) @ Clear # map AddRect (rectsFor Lower rs) \<and>
                calls (upperLayer tm') =
                  calls (upperLayer tm) @ Clear # map AddRect (rectsFor Upper rs) \<and>
                layer_contents (calls (lowerLayer tm')) = rectsFor Lower rs \<and>
                layer_contents (calls (upperLayer tm')) = rectsFor Upper rs \<and>
                \<not> needsRepaint tm' \<and>
                lastAnimationFrame tm' = animationFrame tm \<and>
                lastStartX tm' = Some startX \<and> lastStartY tm' = Some startY))) \<and>
     (\<not> due \<longrightarrow>
        (\<exists>tm'. updateTransform tm = Inr tm' \<and>
           calls (lowerLayer tm') = calls (lowerLayer tm) \<and>
           calls (upperLayer tm') = calls (upperLayer tm))) \<and>
     (\<forall>tm'. updateTransform tm = Inr tm' \<longrightarrow>
        (due \<longleftrightarrow> calls (lowerLayer tm') \<noteq> calls (lowerLayer tm)) \<and>
        (due \<longleftrightarrow> calls (upperLayer tm') \<noteq> calls (upperLayer tm))) \<and>
     (\<forall>e. updateTransform tm = Inl e \<longrightarrow> due) \<and>
     (\<forall>tm1 next.
        updateTransform tm = Inr tm1 \<and>
        origin_x next = origin_x tm1 \<and> origin_y next = origin_y tm1 \<and>
        animationFrame next = animationFrame tm1 \<and>
        needsRepaint next = needsRepaint tm1 \<and>
        lastAnimationFrame next = lastAnimationFrame tm1 \<and>
        lastStartX next = lastStartX tm1 \<and> lastStartY next = lastStartY tm1 \<longrightarrow>
        (\<exists>tm2. updateTransform next = Inr tm2 \<and>
           calls (lowerLayer tm2) = calls (lowerLayer next) \<and>
           calls (upperLayer tm2) = calls (upperLayer next) \<and>
           layer_contents (calls (lowerLayer tm2)) = layer_contents (calls (lowerLayer next)) \<and>
           layer_contents (calls (upperLayer tm2)) = layer_contents (calls (upperLayer next)))) \<and>
     needsRepaint (refresh tm) \<and>
     (case addAllSpotsLoop tm startX startY of
        Inl e \<Rightarrow> updateTransform (refresh tm) = Inl e
      | Inr rs \<Rightarrow>
          (\<exists>tm'. updateTransform (refresh tm) = Inr tm' \<and>
             calls (lowerLayer tm') =
               calls (lowerLayer tm) @ Clear # map AddRect (rectsFor Lower rs) \<and>
             calls (upperLayer tm') =
               calls (upperLayer tm) @ Clear # map AddRect (rectsFor Upper rs))) \<and>
     (needsBitmapsUpdate tm \<and> isReady tm \<longrightarrow>
        needsRepaint (updateBitmaps tm) \<and>
        (case addAllSpotsLoop tm startX startY of
           Inl e \<Rightarrow> updateTransform (updateBitmaps tm) = Inl e
         | Inr rs \<Rightarrow>
             (\<exists>tm'. updateTransform (updateBitmaps tm) = Inr tm' \<and>
                calls (lowerLayer tm') =
                  calls (lowerLayer tm) @
                    SetBitmaps (bitmaps tm) # Clear # map AddRect (rectsFor Lower rs) \<and>
                calls (upperLayer tm') =
                  calls (upperLayer tm) @ Clear # map AddRect (rectsFor Upper rs)))) \<and>
     (\<not> (needsBitmapsUpdate tm \<and> isReady tm) \<longrightarrow> updateBitmaps tm = tm) \<and>
     ((\<forall>b \<in> set bs. b = Some True) \<longrightarrow>
        (\<exists>t. setBitmaps bs tm = Inr t \<and> needsRepaint t \<and>
           origin_x t = origin_x tm \<and> origin_y t = origin_y tm \<and>
           animationFrame t = animationFrame tm \<and>
           lastAnimationFrame t = lastAnimationFrame tm \<and>
           lastStartX t = lastStartX tm \<and> lastStartY t = lastStartY tm)) \<and>
     needsRepaint (initialize graphicsWidth graphicsHeight) \<and>
     needsRepaint (update tm) = needsRepaint tm \<and>
     needsRepaint (setData width height data tm) = needsRepaint tm"
proof -
  note d = updateTransform_due [of tm, folded startX_def startY_def]
  note i = updateTransform_idle [of tm, folded startX_def startY_def]
  have fresh: "case addAllSpotsLoop tm startX startY of
           Inl e \<Rightarrow> updateTransform tm = Inl e
         | Inr rs \<Rightarrow>
             (\<exists>tm'. updateTransform tm = Inr tm' \<and>
                calls (lowerLayer tm') =
                  calls (lowerLayer tm) @ Clear # map AddRect (rectsFor Lower rs) \<and>
                calls (upperLayer tm') =
                  calls (upperLayer tm) @ Clear # map AddRect (rectsFor Upper rs) \<and>
                \<not> needsRepaint tm' \<and>
                lastAnimationFrame tm' = animationFrame tm \<and>
                lastStartX tm' = Some startX \<and> lastStartY tm' = Some startY \<and>
                animationFrame tm' = animationFrame tm \<and>
                origin_x tm' = origin_x tm \<and> origin_y tm' = origin_y tm)" if due
    using that unfolding due_def by (rule d)
  have part1: "case addAllSpotsLoop tm startX startY of
           Inl e \<Rightarrow> updateTransform tm = Inl e
         | Inr rs \<Rightarrow>
             (\<exists>tm'. updateTransform tm = Inr tm' \<and>
                calls (lowerLayer tm') =
                  calls (lowerLayer tm) @ Clear # map AddRect (rectsFor Lower rs) \<and>
                calls (upperLayer tm') =
                  calls (upperLayer tm) @ Clear # map AddRect (rectsFor Upper rs) \<and>
                layer_contents (calls (lowerLayer tm')) = rectsFor Lower rs \<and>
                layer_contents (calls (upperLayer tm')) = rectsFor Upper rs \<and>
                \<not> needsRepaint tm' \<and>
                lastAnimationFrame tm' = animationFrame tm \<and>
                lastStartX tm' = Some startX \<and> lastStartY tm' = Some startY)" if isdue: due
  proof (cases "addAllSpotsLoop tm startX startY")
    case (Inl e)
    then show ?thesis
      using fresh [OF isdue] by simp
  next
    case (Inr rs)
    then obtain tm' where "updateTransform tm = Inr tm'"
      and "calls (lowerLayer tm') = calls (lowerLayer tm) @ Clear # map AddRect (rectsFor Lower rs)"
      and "calls (upperLayer tm') = calls (upperLayer tm) @ Clear # map AddRect (rectsFor Upper rs)"
      and "\<not> needsRepaint tm'" and "lastAnimationFrame tm' = animationFrame tm"
      and "lastStartX tm' = Some startX" and "lastStartY tm' = Some startY"
      using fresh [OF isdue] by auto
    then show ?thesis
      using Inr by (simp add: layer_contents_after_clear)
  qed
  have idle: "\<exists>tm'. updateTransform tm = Inr tm' \<and>
           calls (lowerLayer tm') = calls (lowerLayer tm) \<and>
           calls (upperLayer tm') = calls (upperLayer tm) \<and>
           \<not> needsRepaint tm' \<and>
           lastAnimationFrame tm' = animationFrame tm \<and>
           lastStartX tm' = Some startX \<and> lastStartY tm' = Some startY \<and>
           animationFrame tm' = animationFrame tm \<and>
           origin_x tm' = origin_x tm \<and> origin_y tm' = origin_y tm" if "\<not> due"
    using that unfolding due_def by (rule i)
  have part2: "\<exists>tm'. updateTransform tm = Inr tm' \<and>
           calls (lowerLayer tm') = calls (lowerLayer tm) \<and>
           calls (upperLayer tm') = calls (upperLayer tm)" if "\<not> due"
    using idle [OF that] by blast
  have part3: "(due \<longleftrightarrow> calls (lowerLayer tm') \<noteq> calls (lowerLayer tm)) \<and>
        (due \<longleftrightarrow> calls (upperLayer tm') \<noteq> calls (upperLayer tm))"
    if run: "updateTransform tm = Inr tm'" for tm'
  proof (cases due)
    case True
    then show ?thesis
      using part1 [OF True] run by (cases "addAllSpotsLoop tm startX startY") auto
  next
    case False
    then show ?thesis
      using part2 [OF False] run by auto
  qed
  have part4: due if "updateTransform tm = Inl e" for e
    using part2 that by (cases due) auto
  have settled: "\<not> needsRepaint tm1 \<and> lastAnimationFrame tm1 = animationFrame tm1 \<and>
      lastStartX tm1 = Some startX \<and> lastStartY tm1 = Some startY \<and>
      origin_x tm1 = origin_x tm \<and> origin_y tm1 = origin_y tm"
    if run: "updateTransform tm = Inr tm1" for tm1
  proof (cases due)
    case True
    then show ?thesis
      using fresh [OF True] run by (cases "addAllSpotsLoop tm startX startY") auto
  next
    case False
    then show ?thesis
      using idle [OF False] run by auto
  qed
  have part5: "\<exists>tm2. updateTransform next = Inr tm2 \<and>
           calls (lowerLayer tm2) = calls (lowerLayer next) \<and>
           calls (upperLayer tm2) = calls (upperLayer next) \<and>
           layer_contents (calls (lowerLayer tm2)) = layer_contents (calls (lowerLayer next)) \<and>
           layer_contents (calls (upperLayer tm2)) = layer_contents (calls (upperLayer next))"
    if run: "updateTransform tm = Inr tm1"
      and same: "origin_x next = origin_x tm1" "origin_y next = origin_y tm1"
        "animationFrame next = animationFrame tm1" "needsRepaint next = needsRepaint tm1"
        "lastAnimationFrame next = lastAnimationFrame tm1"
        "lastStartX next = lastStartX tm1" "lastStartY next = lastStartY tm1"
    for tm1 "next"
  proof -
    have "\<not> (needsRepaint next \<or> lastAnimationFrame next \<noteq> animationFrame next \<or>
        lastStartX next \<noteq>
          Some \<lfloor>rat_of_int (\<lceil>origin_x next\<rceil> - margin) / rat_of_int tileWidth\<rfloor> \<or>
        lastStartY next \<noteq>
          Some \<lfloor>rat_of_int (\<lceil>origin_y next\<rceil> - margin) / rat_of_int tileHeight\<rfloor>)"
      using settled [OF run] same unfolding startX_def startY_def by simp
    from updateTransform_idle [OF this] show ?thesis
      by auto
  qed
  have old: "(due \<longrightarrow>
        (case addAllSpotsLoop tm startX startY of
           Inl e \<Rightarrow> updateTransform tm = Inl e
         | Inr rs \<Rightarrow>
             (\<exists>tm'. updateTransform tm = Inr tm' \<and>
                calls (lowerLayer tm') =
                  calls (lowerLayer tm) @ Clear # map AddRect (rectsFor Lower rs) \<and>
                calls (upperLayer tm') =
                  calls (upperLayer tm) @ Clear # map AddRect (rectsFor Upper rs) \<and>
                layer_contents (calls (lowerLayer tm')) = rectsFor Lower rs \<and>
                layer_contents (calls (upperLayer tm')) = rectsFor Upper rs \<and>
                \<not> needsRepaint tm' \<and>
                lastAnimationFrame tm' = animationFrame tm \<and>
                lastStartX tm' = Some startX \<and> lastStartY tm' = Some startY))) \<and>
     (\<not> due \<longrightarrow>
        (\<exists>tm'. updateTransform tm = Inr tm' \<and>
           calls (lowerLayer tm') = calls (lowerLayer tm) \<and>
           calls (upperLayer tm') = calls (upperLayer tm))) \<and>
     (\<forall>tm'. updateTransform tm = Inr tm' \<longrightarrow>
        (due \<longleftrightarrow> calls (lowerLayer tm') \<noteq> calls (lowerLayer tm)) \<and>
        (due \<longleftrightarrow> calls (upperLayer tm') \<noteq> calls (upperLayer tm))) \<and>
     (\<forall>e. updateTransform tm = Inl e \<longrightarrow> due) \<and>
     (\<forall>tm1 next.
        updateTransform tm = Inr tm1 \<and>
        origin_x next = origin_x tm1 \<and> origin_y next = origin_y tm1 \<and>
        animationFrame next = animationFrame tm1 \<and>
        needsRepaint next = needsRepaint tm1 \<and>
        lastAnimationFrame next = lastAnimationFrame tm1 \<and>
        lastStartX next = lastStartX tm1 \<and> lastStartY next = lastStartY tm1 \<longrightarrow>
        (\<exists>tm2. updateTransform next = Inr tm2 \<and>
           calls (lowerLayer tm2) = calls (lowerLayer next) \<and>
           calls (upperLayer tm2) = calls (upperLayer next) \<and>
           layer_contents (calls (lowerLayer tm2)) = layer_contents (calls (lowerLayer next)) \<and>
           layer_contents (calls (upperLayer tm2)) = layer_contents (calls (upperLayer next))))"
    using part1 part2 part3 part4 part5 by blast
  have refreshed: "needsRepaint (refresh tm)"
    by (simp add: refresh_def)
  have after_refresh: "case addAllSpotsLoop tm startX startY of
        Inl e \<Rightarrow> updateTransform (refresh tm) = Inl e
      | Inr rs \<Rightarrow>
          (\<exists>tm'. updateTransform (refresh tm) = Inr tm' \<and>
             calls (lowerLayer tm') =
               calls (lowerLayer tm) @ Clear # map AddRect (rectsFor Lower rs) \<and>
             calls (upperLayer tm') =
               calls (upperLayer tm) @ Clear # map AddRect (rectsFor Upper rs))"
    using updateTransform_flagged [of "refresh tm" tm] refreshed
    unfolding startX_def startY_def
    by (simp add: refresh_def sameMap_def cong: sum.case_cong)
  have loaded: "needsRepaint (updateBitmaps tm) \<and>
        (case addAllSpotsLoop tm startX startY of
           Inl e \<Rightarrow> updateTransform (updateBitmaps tm) = Inl e
         | Inr rs \<Rightarrow>
             (\<exists>tm'. updateTransform (updateBitmaps tm) = Inr tm' \<and>
                calls (lowerLayer tm') =
                  calls (lowerLayer tm) @
                    SetBitmaps (bitmaps tm) # Clear # map AddRect (rectsFor Lower rs) \<and>
                calls (upperLayer tm') =
                  calls (upperLayer tm) @ Clear # map AddRect (rectsFor Upper rs)))"
    if "needsBitmapsUpdate tm \<and> isReady tm"
    using updateTransform_flagged [of "updateBitmaps tm" tm] that
    unfolding startX_def startY_def
    by (simp add: updateBitmaps_def sameMap_def cong: sum.case_cong)
  have unloaded: "updateBitmaps tm = tm" if "\<not> (needsBitmapsUpdate tm \<and> isReady tm)"
    using that by (auto simp add: updateBitmaps_def)
  have set_ready: "\<exists>t. setBitmaps bs tm = Inr t \<and> needsRepaint t \<and>
           origin_x t = origin_x tm \<and> origin_y t = origin_y tm \<and>
           animationFrame t = animationFrame tm \<and>
           lastAnimationFrame t = lastAnimationFrame tm \<and>
           lastStartX t = lastStartX tm \<and> lastStartY t = lastStartY tm"
    if "\<forall>b \<in> set bs. b = Some True"
  proof -
    have "None \<notin> set bs"
      using that by auto
    moreover have "isReady (tm\<lparr> bitmaps := bs, needsBitmapsUpdate := True \<rparr>)"
      using that by (auto simp add: isReady_def list_all_iff)
    ultimately show ?thesis
      by (simp add: setBitmaps_def updateBitmaps_def)
  qed
  have flags: "needsRepaint (initialize graphicsWidth graphicsHeight) \<and>
     needsRepaint (update tm) = needsRepaint tm \<and>
     needsRepaint (setData width height data tm) = needsRepaint tm"
    by (simp add: initialize_def update_def setData_def Let_def)
  show ?thesis
    using old refreshed after_refresh loaded unloaded set_ready flags by blast
qed

lemma deepWaterMap_start:
  "\<lfloor>rat_of_int (\<lceil>origin_x deepWaterMap\<rceil> - margin) / rat_of_int tileWidth\<rfloor> = - 1"
  "\<lfloor>rat_of_int (\<lceil>origin_y deepWaterMap\<rceil> - margin) / rat_of_int tileHeight\<rfloor> = - 1"
  by (simp_all add: deepWaterMap_fields margin_def tileWidth_def tileHeight_def floor_eq_iff)

text \<open>
  C5, as the claim states it, fails: a repaint also follows a bitmap update. After a
  first \<open>updateTransform\<close> on the single-cell map, \<open>setBitmaps\<close> with a loaded bitmap
  sets the repaint flag through \<open>_updateBitmaps\<close>; the origin and the animation frame
  are as they were and \<open>refresh\<close> is never called, yet the second \<open>updateTransform\<close>
  clears the lower layer and adds the four rectangles again.
\<close>

theorem repaint_without_refresh_counterexample:
  "map_sum id (\<lambda>t. (calls (lowerLayer t), needsRepaint t, origin_x t, origin_y t, animationFrame t))
     (run [updateTransform] deepWaterMap) =
     Inr ([Clear,
           AddRect (Rect 0 (Some 48) (Some 96) 48 48 24 24),
           AddRect (Rect 0 (Some 24) (Some 96) 72 48 24 24),
           AddRect (Rect 0 (Some 48) (Some 72) 48 72 24 24),
           AddRect (Rect 0 (Some 24) (Some 72) 72 72 24 24)], False, 0, 0, Some 0) \<and>
   map_sum id (\<lambda>t. (origin_x t, origin_y t, animationFrame t))
     (run [updateTransform, setBitmaps [Some True]] deepWaterMap) = Inr (0, 0, Some 0) \<and>
   map_sum id (\<lambda>t. calls (lowerLayer t))
     (run [updateTransform, setBitmaps [Some True], updateTransform] deepWaterMap) =
     Inr [Clear,
          AddRect (Rect 0 (Some 48) (Some 96) 48 48 24 24),
          AddRect (Rect 0 (Some 24) (Some 96) 72 48 24 24),
          AddRect (Rect 0 (Some 48) (Some 72) 48 72 24 24),
          AddRect (Rect 0 (Some 24) (Some 72) 72 72 24 24),
          SetBitmaps [Some True],
          Clear,
          AddRect (Rect 0 (Some 48) (Some 96) 48 48 24 24),
          AddRect (Rect 0 (Some 24) (Some 96) 72 48 24 24),
          AddRect (Rect 0 (Some 48) (Some 72) 48 72 24 24),
          AddRect (Rect 0 (Some 24) (Some 72) 72 72 24 24)]"
proof -
  let ?painted = "[Clear,
           AddRect (Rect 0 (Some 48) (Some 96) 48 48 24 24),
           AddRect (Rect 0 (Some 24) (Some 96) 72 48 24 24),
           AddRect (Rect 0 (Some 48) (Some 72) 48 72 24 24),
           AddRect (Rect 0 (Some 24) (Some 72) 72 72 24 24)]"
  have "needsRepaint deepWaterMap \<or> lastAnimationFrame deepWaterMap \<noteq> animationFrame deepWaterMap \<or>
      lastStartX deepWaterMap \<noteq>
        Some \<lfloor>rat_of_int (\<lceil>origin_x deepWaterMap\<rceil> - margin) / rat_of_int tileWidth\<rfloor> \<or>
      lastStartY deepWaterMap \<noteq>
        Some \<lfloor>rat_of_int (\<lceil>origin_y deepWaterMap\<rceil> - margin) / rat_of_int tileHeight\<rfloor>"
    by (simp add: deepWaterMap_fields)
  from updateTransform_due [OF this] obtain tm1
    where first: "updateTransform deepWaterMap = Inr tm1"
      and lower1: "calls (lowerLayer tm1) = ?painted"
      and flag1: "\<not> needsRepaint tm1"
      and frame1: "animationFrame tm1 = Some 0"
      and origin1: "origin_x tm1 = 0" "origin_y tm1 = 0"
    unfolding deepWaterMap_start
    by (auto simp add: deepWaterMap_loop deepWaterMap_fields rectsFor_def)
  have same1: "sameMap tm1 deepWaterMap"
    using first by (rule updateTransform_sameMap)
  let ?loaded = "updateBitmaps (tm1\<lparr> bitmaps := [Some True], needsBitmapsUpdate := True \<rparr>)"
  have second: "setBitmaps [Some True] tm1 = Inr ?loaded"
    by (simp add: setBitmaps_def)
  have ready: "isReady (tm1\<lparr> bitmaps := [Some True], needsBitmapsUpdate := True \<rparr>)"
    by (simp add: isReady_def)
  have loaded: "needsRepaint ?loaded" "origin_x ?loaded = 0" "origin_y ?loaded = 0"
    "animationFrame ?loaded = Some 0"
    "calls (lowerLayer ?loaded) = ?painted @ [SetBitmaps [Some True]]"
    "sameMap ?loaded deepWaterMap"
    using same1 by (simp_all add: updateBitmaps_def ready origin1 frame1 lower1 sameMap_def)
  have "origin_x ?loaded = origin_x deepWaterMap" "origin_y ?loaded = origin_y deepWaterMap"
    by (simp_all add: loaded deepWaterMap_fields)
  from updateTransform_flagged [OF loaded(1) loaded(6) this] obtain tm2
    where third: "updateTransform ?loaded = Inr tm2"
      and lower2: "calls (lowerLayer tm2) = calls (lowerLayer ?loaded) @ ?painted"
    unfolding deepWaterMap_start
    by (auto simp add: deepWaterMap_loop rectsFor_def)
  show ?thesis
    using first second third lower1 flag1 frame1 origin1 loaded(2-5) lower2
    by simp
qed

theorem repaint_memoization_witness:
  "needsRepaint deepWaterMap \<and>
   (\<exists>tm1. updateTransform deepWaterMap = Inr tm1 \<and>
      calls (lowerLayer tm1) =
        [Clear,
         AddRect (Rect 0 (Some 48) (Some 96) 48 48 24 24),
         AddRect (Rect 0 (Some 24) (Some 96) 72 48 24 24),
         AddRect (Rect 0 (Some 48) (Some 72) 48 72 24 24),
         AddRect (Rect 0 (Some 24) (Some 72) 72 72 24 24)] \<and>
      calls (upperLayer tm1) = [Clear] \<and>
      (\<exists>tm2. updateTransform tm1 = Inr tm2 \<and>
         calls (lowerLayer tm2) = calls (lowerLayer tm1) \<and>
         calls (upperLayer tm2) = calls (upperLayer tm1))) \<and>
   needsRepaint (refresh deepWaterMap) \<and>
   (\<exists>t. setBitmaps [Some True] deepWaterMap = Inr t \<and> needsRepaint t)"
proof -
  note inst = repaint_memoization [where tm = deepWaterMap and bs = "[Some True]"
      and graphicsWidth = 8 and graphicsHeight = 8 and width = 1 and height = 1
      and data = None, unfolded deepWaterMap_start]
  note fresh = inst [THEN conjunct1]
  note again = inst [THEN conjunct2, THEN conjunct2, THEN conjunct2, THEN conjunct2,
      THEN conjunct1]
  note rest = inst [THEN conjunct2, THEN conjunct2, THEN conjunct2, THEN conjunct2,
      THEN conjunct2]
  have due: "needsRepaint deepWaterMap"
    by (simp add: deepWaterMap_fields)
  from fresh due obtain tm1 where run: "updateTransform deepWaterMap = Inr tm1"
    and lower: "calls (lowerLayer tm1) =
        [Clear,
         AddRect (Rect 0 (Some 48) (Some 96) 48 48 24 24),
         AddRect (Rect 0 (Some 24) (Some 96) 72 48 24 24),
         AddRect (Rect 0 (Some 48) (Some 72) 48 72 24 24),
         AddRect (Rect 0 (Some 24) (Some 72) 72 72 24 24)]"
    and upper: "calls (upperLayer tm1) = [Clear]"
    by (auto simp add: deepWaterMap_loop deepWaterMap_fields rectsFor_def)
  from again run obtain tm2 where "updateTransform tm1 = Inr tm2"
    and "calls (lowerLayer tm2) = calls (lowerLayer tm1)"
    and "calls (upperLayer tm2) = calls (upperLayer tm1)"
    by blast
  moreover have "needsRepaint (refresh deepWaterMap)"
    using rest by blast
  moreover have "\<exists>t. setBitmaps [Some True] deepWaterMap = Inr t \<and> needsRepaint t"
  proof -
    have "\<forall>b \<in> set [Some True]. b = Some True"
      by simp
    with rest show ?thesis
      by blast
  qed
  ultimately show ?thesis
    using due run lower upper by blast
qed

end
